theory Spec2Isabelle
  imports Main "HOL-Library.AList"
begin

section \<open>JavaScript values and string helpers\<close>

text \<open>
  The blocks move driver values into emitted events without inspecting them, except for
  the test \<^verbatim>\<open>typeof value === "bigint"\<close>. A value is therefore one constructor per
  \<^verbatim>\<open>typeof\<close> class that the code can tell apart; objects (dates, buffers) are opaque and
  carried by a label. A row, a parameter object and an emitted object are association
  lists from property names to values in \<^verbatim>\<open>Object.entries\<close> order.
\<close>

datatype jsvalue =
    JUndefined
  | JNull
  | JBool bool
  | JNumber int
  | JBigInt int
  | JString string
  | JObject string

type_synonym row = "(string \<times> jsvalue) list"

type_synonym err = string

text \<open>Decimal rendering, as \<^verbatim>\<open>BigInt.prototype.toString()\<close> and the template literal
  \<^verbatim>\<open>`p${paramIndex}`\<close> produce it for integers.\<close>

definition digit_char :: "nat \<Rightarrow> char" where
  "digit_char d = ''0123456789'' ! d"

function nat_toString :: "nat \<Rightarrow> string" where
  "nat_toString n =
     (if n < 10 then [digit_char n] else nat_toString (n div 10) @ [digit_char (n mod 10)])"
  by pat_completeness auto
termination
  by (relation "measure (\<lambda>n. n)") auto

declare nat_toString.simps [simp del]

definition bigint_toString :: "int \<Rightarrow> string" where
  "bigint_toString i =
     (if i < 0 then CHR ''-'' # nat_toString (nat (- i)) else nat_toString (nat i))"

text \<open>\<^verbatim>\<open>Array.prototype.join\<close> and \<^verbatim>\<open>String.prototype.split\<close> on a one-character
  separator.\<close>

fun join :: "string \<Rightarrow> string list \<Rightarrow> string" where
  "join sep [] = []"
| "join sep [x] = x"
| "join sep (x # y # ys) = x @ sep @ join sep (y # ys)"

fun split_acc :: "char \<Rightarrow> string \<Rightarrow> string \<Rightarrow> string list" where
  "split_acc c cur [] = [cur]"
| "split_acc c cur (x # xs) =
     (if x = c then cur # split_acc c [] xs else split_acc c (cur @ [x]) xs)"

definition split :: "char \<Rightarrow> string \<Rightarrow> string list" where
  "split c s = split_acc c [] s"

text \<open>Property read: a missing property reads as \<^verbatim>\<open>undefined\<close>.\<close>

definition get_prop :: "row \<Rightarrow> string \<Rightarrow> jsvalue" where
  "get_prop r k = (case map_of r k of None \<Rightarrow> JUndefined | Some v \<Rightarrow> v)"

section \<open>Requests, results and handler outcomes\<close>

text \<open>
  A request of the driver: the parameters bound with \<^verbatim>\<open>request.input\<close> in call order, the
  \<^verbatim>\<open>stream\<close> flag and the text handed to \<^verbatim>\<open>request.query\<close>. The database behind the pool
  is a function from the request to the driver's answer: an error (the promise rejects)
  or a result with its \<^verbatim>\<open>recordset\<close> and \<^verbatim>\<open>rowsAffected\<close>.

  Every handler first awaits \<^verbatim>\<open>getPool(input.app.config)\<close>, which is modelled on its own
  further down. A handler takes what that \<^verbatim>\<open>await\<close> gave as its first argument: the error
  of a rejected promise (a failed \<^verbatim>\<open>connect\<close> is not caught), with which the handler fails
  before it does anything else, or the pool, that is the database behind it.

  \<^verbatim>\<open>request.input\<close> belongs to the driver and throws when it refuses a parameter (a name
  with a space in it, say). What it refuses is the parameter \<open>refuses\<close> of the blocks that
  bind parameters named by the user: given the request so far, the name and the value,
  it tells the error thrown, if any. The names \<^verbatim>\<open>p1\<close>, \<^verbatim>\<open>p2\<close>, ... that bulkInsert and
  getTableInfo bind themselves are names the driver accepts.
\<close>

record db_request =
  inputs :: "(string \<times> jsvalue) list"
  stream :: bool
  sql_text :: string

record db_result =
  recordset :: "row list"
  rowsAffected :: "int list"

type_synonym database = "db_request \<Rightarrow> err + db_result"

type_synonym got_pool = "err + database"

type_synonym input_check = "db_request \<Rightarrow> string \<Rightarrow> jsvalue \<Rightarrow> err option"

definition new_request :: db_request where
  "new_request = \<lparr>inputs = [], stream = False, sql_text = []\<rparr>"

definition input :: "string \<Rightarrow> jsvalue \<Rightarrow> db_request \<Rightarrow> db_request" where
  "input name v r = r\<lparr>inputs := inputs r @ [(name, v)]\<rparr>"

datatype event =
    RowsEvent "row list"
  | RowsAffectedEvent int
  | InsertEvent int string
  | BatchEvent nat "row list" nat bool
  | TableInfoEvent jsvalue jsvalue jsvalue jsvalue "row list" "row list" "row list"

text \<open>What one \<^verbatim>\<open>onEvent\<close> call did: the queries it handed to the driver, the events it
  emitted, and the error it threw, if any.\<close>

record outcome =
  issued :: "db_request list"
  emitted :: "event list"
  failed :: "err option"

text \<open>A handler that throws before it has handed a query to the driver or emitted an
  event.\<close>

definition rejected :: "err \<Rightarrow> outcome" where
  "rejected e = \<lparr>issued = [], emitted = [], failed = Some e\<rparr>"

section \<open>Shared loops of the blocks\<close>

text \<open>The parameter loop of executeQuery, executeCommand and streamQuery:
  \<^verbatim>\<open>for (const [name, value] of Object.entries(params)) request.input(name, value)\<close>,
  with \<^verbatim>\<open>params = parameters || {}\<close>.\<close>

fun bind_loop :: "input_check \<Rightarrow> (string \<times> jsvalue) list \<Rightarrow> db_request \<Rightarrow> err + db_request" where
  "bind_loop refuses [] r = Inr r"
| "bind_loop refuses ((name, v) # ps) r =
     (case refuses r name v of
        Some e \<Rightarrow> Inl e
      | None \<Rightarrow> bind_loop refuses ps (input name v r))"

definition bind_parameters :: "input_check \<Rightarrow> row option \<Rightarrow> db_request \<Rightarrow> err + db_request" where
  "bind_parameters refuses parameters r =
     bind_loop refuses (case parameters of None \<Rightarrow> [] | Some ps \<Rightarrow> ps) r"

text \<open>The BigInt loop of executeQuery and streamQuery: a fresh object, one assignment
  \<^verbatim>\<open>serializedRow[key] = ...\<close> per entry of the driver's row.\<close>

definition serializeValue :: "jsvalue \<Rightarrow> jsvalue" where
  "serializeValue v = (case v of JBigInt i \<Rightarrow> JString (bigint_toString i) | _ \<Rightarrow> v)"

definition serializeRow :: "row \<Rightarrow> row" where
  "serializeRow r = fold (\<lambda>(key, v) acc. AList.update key (serializeValue v) acc) r []"

text \<open>\<^verbatim>\<open>result.rowsAffected.reduce((sum, count) => sum + count, 0)\<close>\<close>

definition totalRowsAffected :: "db_result \<Rightarrow> int" where
  "totalRowsAffected res = foldl (\<lambda>sum count. sum + count) 0 (rowsAffected res)"

section \<open>executeQuery and executeCommand\<close>

definition executeQuery :: "got_pool \<Rightarrow> input_check \<Rightarrow> string \<Rightarrow> row option \<Rightarrow> outcome" where
  "executeQuery got refuses query parameters =
     (case got of
        Inl e \<Rightarrow> rejected e
      | Inr db \<Rightarrow>
          (case bind_parameters refuses parameters new_request of
             Inl e \<Rightarrow> rejected e
           | Inr request \<Rightarrow>
               (let request = request\<lparr>sql_text := query\<rparr>
                in case db request of
                     Inl e \<Rightarrow> \<lparr>issued = [request], emitted = [], failed = Some e\<rparr>
                   | Inr result \<Rightarrow>
                       \<lparr>issued = [request],
                        emitted = [RowsEvent (map serializeRow (recordset result))],
                        failed = None\<rparr>)))"

definition executeCommand :: "got_pool \<Rightarrow> input_check \<Rightarrow> string \<Rightarrow> row option \<Rightarrow> outcome" where
  "executeCommand got refuses command parameters =
     (case got of
        Inl e \<Rightarrow> rejected e
      | Inr db \<Rightarrow>
          (case bind_parameters refuses parameters new_request of
             Inl e \<Rightarrow> rejected e
           | Inr request \<Rightarrow>
               (let request = request\<lparr>sql_text := command\<rparr>
                in case db request of
                     Inl e \<Rightarrow> \<lparr>issued = [request], emitted = [], failed = Some e\<rparr>
                   | Inr result \<Rightarrow>
                       \<lparr>issued = [request],
                        emitted = [RowsAffectedEvent (totalRowsAffected result)],
                        failed = None\<rparr>)))"

section \<open>bulkInsert\<close>

definition sanitizeIdentifier :: "string \<Rightarrow> string" where
  "sanitizeIdentifier name =
     (let cleaned = filter (\<lambda>c. c \<noteq> CHR ''['' \<and> c \<noteq> CHR '']'') name
      in ''['' @ cleaned @ '']'')"

definition sanitizeTableName :: "string \<Rightarrow> string" where
  "sanitizeTableName tableName =
     (let parts = split CHR ''.'' tableName in join ''.'' (map sanitizeIdentifier parts))"

text \<open>
  The two nested loops over \<^verbatim>\<open>rowsData\<close>. The state of the inner loop is
  \<^verbatim>\<open>(rowPlaceholders, request, paramIndex)\<close>, that of the outer loop
  \<^verbatim>\<open>(valuePlaceholders, request, paramIndex)\<close>.
\<close>

fun row_loop ::
  "jsvalue list \<Rightarrow> string list \<times> db_request \<times> nat \<Rightarrow> string list \<times> db_request \<times> nat"
where
  "row_loop [] st = st"
| "row_loop (v # vs) (rowPlaceholders, request, paramIndex) =
     row_loop vs
       (rowPlaceholders @ [''@p'' @ nat_toString paramIndex],
        (case v of
           JBigInt i \<Rightarrow> input (''p'' @ nat_toString paramIndex) (JString (bigint_toString i)) request
         | _ \<Rightarrow> input (''p'' @ nat_toString paramIndex) v request),
        paramIndex + 1)"

fun rows_loop ::
  "jsvalue list list \<Rightarrow> string list \<times> db_request \<times> nat \<Rightarrow> string list \<times> db_request \<times> nat"
where
  "rows_loop [] st = st"
| "rows_loop (r # rs) (valuePlaceholders, request, paramIndex) =
     (case row_loop r ([], request, paramIndex) of
        (rowPlaceholders, request', paramIndex') \<Rightarrow>
          rows_loop rs
            (valuePlaceholders @ [''('' @ join '', '' rowPlaceholders @ '')''],
             request', paramIndex'))"

text \<open>The handler from \<^verbatim>\<open>const rowsData = rows as any[][]\<close> on, with the pool in hand.\<close>

definition insert_rows ::
  "database \<Rightarrow> string \<Rightarrow> string list \<Rightarrow> jsvalue list list \<Rightarrow> outcome"
where
  "insert_rows db table columns rowsData =
     (if length rowsData = 0
      then \<lparr>issued = [], emitted = [InsertEvent 0 table], failed = None\<rparr>
      else
        (let columnsList = join '', '' (map (\<lambda>col. ''['' @ col @ '']'') columns)
         in case rows_loop rowsData ([], new_request, 1) of
              (valuePlaceholders, request, paramIndex) \<Rightarrow>
                (let safeTableName = sanitizeTableName table;
                     insertQuery = ''INSERT INTO '' @ safeTableName @ '' ('' @ columnsList
                                   @ '') VALUES '' @ join '', '' valuePlaceholders;
                     request = request\<lparr>sql_text := insertQuery\<rparr>
                 in case db request of
                      Inl e \<Rightarrow> \<lparr>issued = [request], emitted = [], failed = Some e\<rparr>
                    | Inr result \<Rightarrow>
                        \<lparr>issued = [request],
                         emitted =
                           [InsertEvent
                              (if totalRowsAffected result = 0 then int (length rowsData)
                               else totalRowsAffected result)
                              table],
                         failed = None\<rparr>)))"

definition bulkInsert ::
  "got_pool \<Rightarrow> string \<Rightarrow> string list \<Rightarrow> jsvalue list list \<Rightarrow> outcome"
where
  "bulkInsert got table columns rowsData =
     (case got of
        Inl e \<Rightarrow> rejected e
      | Inr db \<Rightarrow> insert_rows db table columns rowsData)"

section \<open>streamRows\<close>

text \<open>
  The async generator runs on a single thread together with the driver's callbacks and
  the consumer. What happens is a schedule: a list of actions, each either a pull (the
  \<^verbatim>\<open>for await\<close> consumer asks for the next value) or a callback of the driver.

  The generator is suspended at one of four places: before its body has started
  (\<^verbatim>\<open>NotStarted\<close>: no handler is registered and no query issued yet), at
  \<^verbatim>\<open>yield rowQueue.shift()\<close>, at the \<^verbatim>\<open>await\<close> of the promise, or at the
  \<^verbatim>\<open>yield\<close> of the awaited value; or it is finished. The promise that \<^verbatim>\<open>resolver\<close> and
  \<^verbatim>\<open>rejecter\<close> belong to is pending exactly while the generator awaits it; settling it
  resumes the generator, which hands the value to the consumer (or throws), and calling
  the function of a settled promise does nothing. A consumer that is already waiting
  does not pull again, so a pull during the \<^verbatim>\<open>await\<close> changes nothing, and neither does
  a pull on a finished generator.
\<close>

datatype 'r driver_event = RowEv 'r | ErrorEv err | DoneEv

datatype 'r action = Pull | Drv "'r driver_event"

datatype gen_ctrl = NotStarted | AtYieldQueue | Awaiting | AtYieldAwaited | Finished

text \<open>What the consumer sees: a yielded value (\<^verbatim>\<open>None\<close> is \<^verbatim>\<open>undefined\<close>), the end of
  the sequence, or a thrown error.\<close>

datatype 'r gen_out = Yielded "'r option" | Returned | Thrown err

record 'r gen_state =
  ctrl :: gen_ctrl
  request :: db_request
  queries :: "db_request list"
  resolver :: bool
  rejecter :: bool
  rowQueue :: "'r list"
  isDone :: bool
  error :: "err option"
  out :: "'r gen_out list"

definition streamRows :: "db_request \<Rightarrow> string \<Rightarrow> 'r gen_state" where
  "streamRows req query =
     \<lparr>ctrl = NotStarted, request = req\<lparr>sql_text := query\<rparr>, queries = [],
      resolver = False, rejecter = False, rowQueue = [], isDone = False, error = None,
      out = []\<rparr>"

definition resolve :: "'r option \<Rightarrow> 'r gen_state \<Rightarrow> 'r gen_state" where
  "resolve v st =
     (if ctrl st = Awaiting then st\<lparr>ctrl := AtYieldAwaited, out := out st @ [Yielded v]\<rparr>
      else st)"

definition reject :: "err \<Rightarrow> 'r gen_state \<Rightarrow> 'r gen_state" where
  "reject e st =
     (if ctrl st = Awaiting then st\<lparr>ctrl := Finished, out := out st @ [Thrown e]\<rparr>
      else st)"

definition on_row :: "'r \<Rightarrow> 'r gen_state \<Rightarrow> 'r gen_state" where
  "on_row r st =
     (if resolver st then (resolve (Some r) st)\<lparr>resolver := False\<rparr>
      else st\<lparr>rowQueue := rowQueue st @ [r]\<rparr>)"

definition on_error :: "err \<Rightarrow> 'r gen_state \<Rightarrow> 'r gen_state" where
  "on_error e st =
     (let st = st\<lparr>error := Some e\<rparr>
      in if rejecter st then (reject e st)\<lparr>rejecter := False\<rparr> else st)"

definition on_done :: "'r gen_state \<Rightarrow> 'r gen_state" where
  "on_done st =
     (let st = st\<lparr>isDone := True\<rparr>
      in if resolver st then (resolve None st)\<lparr>resolver := False\<rparr> else st)"

text \<open>The promise executor of the \<^verbatim>\<open>else\<close> branch: it stores the two functions and
  checks the three variables again.\<close>

definition executor :: "'r gen_state \<Rightarrow> 'r gen_state" where
  "executor st =
     (let st = st\<lparr>ctrl := Awaiting, resolver := True, rejecter := True\<rparr>
      in case error st of
           Some e \<Rightarrow> reject e st
         | None \<Rightarrow>
             (case rowQueue st of
                r # q \<Rightarrow> (resolve (Some r) (st\<lparr>rowQueue := q\<rparr>))\<lparr>resolver := False\<rparr>
              | [] \<Rightarrow> if isDone st then (resolve None st)\<lparr>resolver := False\<rparr> else st))"

text \<open>One turn of \<^verbatim>\<open>while (true)\<close>, from its top to the next suspension.\<close>

definition loop_top :: "'r gen_state \<Rightarrow> 'r gen_state" where
  "loop_top st =
     (case error st of
        Some e \<Rightarrow> st\<lparr>ctrl := Finished, out := out st @ [Thrown e]\<rparr>
      | None \<Rightarrow>
          (case rowQueue st of
             r # q \<Rightarrow> st\<lparr>ctrl := AtYieldQueue, rowQueue := q, out := out st @ [Yielded (Some r)]\<rparr>
           | [] \<Rightarrow>
               if isDone st then st\<lparr>ctrl := Finished, out := out st @ [Returned]\<rparr>
               else executor st))"

definition pull :: "'r gen_state \<Rightarrow> 'r gen_state" where
  "pull st =
     (case ctrl st of
        NotStarted \<Rightarrow>
          loop_top (st\<lparr>request := (request st)\<lparr>stream := True\<rparr>,
                       queries := queries st @ [(request st)\<lparr>stream := True\<rparr>]\<rparr>)
      | AtYieldQueue \<Rightarrow> loop_top st
      | AtYieldAwaited \<Rightarrow>
          if isDone st \<and> length (rowQueue st) = 0
          then st\<lparr>ctrl := Finished, out := out st @ [Returned]\<rparr>
          else loop_top st
      | Awaiting \<Rightarrow> st
      | Finished \<Rightarrow> st)"

definition step :: "'r gen_state \<Rightarrow> 'r action \<Rightarrow> 'r gen_state" where
  "step st a =
     (case a of
        Pull \<Rightarrow> pull st
      | Drv ev \<Rightarrow>
          if ctrl st = NotStarted then st
          else (case ev of RowEv r \<Rightarrow> on_row r st | ErrorEv e \<Rightarrow> on_error e st | DoneEv \<Rightarrow> on_done st))"

fun run :: "'r gen_state \<Rightarrow> 'r action list \<Rightarrow> 'r gen_state" where
  "run st [] = st"
| "run st (a # as) = run (step st a) as"

text \<open>The driver's callbacks of a schedule, in order, and the part of a schedule before
  its first \<^verbatim>\<open>done\<close> callback.\<close>

fun drv_events :: "'r action list \<Rightarrow> 'r driver_event list" where
  "drv_events [] = []"
| "drv_events (Pull # s) = drv_events s"
| "drv_events (Drv e # s) = e # drv_events s"

fun before_done :: "'r action list \<Rightarrow> 'r action list" where
  "before_done [] = []"
| "before_done (Drv DoneEv # s) = []"
| "before_done (a # s) = a # before_done s"

section \<open>streamQuery\<close>

text \<open>
  The \<^verbatim>\<open>for await\<close> loop over what the generator hands out. It ends when the generator
  returns, when the loop breaks at \<^verbatim>\<open>undefined\<close>, or when the generator throws (the
  handler fails and the remaining rows are not emitted). A trace that stops before any
  of these is a handler still waiting.
\<close>

datatype loop_end = Completed | Failed err | Waiting

definition remaining :: "nat \<Rightarrow> row list \<Rightarrow> event list" where
  "remaining batchNumber currentBatch =
     (if length currentBatch > 0
      then [BatchEvent batchNumber currentBatch (length currentBatch) False] else [])"

fun stream_loop :: "int \<Rightarrow> nat \<Rightarrow> row list \<Rightarrow> row gen_out list \<Rightarrow> event list \<times> loop_end" where
  "stream_loop batchSize batchNumber currentBatch [] = ([], Waiting)"
| "stream_loop batchSize batchNumber currentBatch (Returned # tr) =
     (remaining batchNumber currentBatch, Completed)"
| "stream_loop batchSize batchNumber currentBatch (Thrown e # tr) = ([], Failed e)"
| "stream_loop batchSize batchNumber currentBatch (Yielded None # tr) =
     (remaining batchNumber currentBatch, Completed)"
| "stream_loop batchSize batchNumber currentBatch (Yielded (Some r) # tr) =
     (let currentBatch = currentBatch @ [serializeRow r]
      in if int (length currentBatch) \<ge> batchSize
         then (case stream_loop batchSize (batchNumber + 1) [] tr of
                 (evs, e) \<Rightarrow>
                   (BatchEvent batchNumber currentBatch (length currentBatch) True # evs, e))
         else stream_loop batchSize batchNumber currentBatch tr)"

text \<open>\<^verbatim>\<open>(configBatchSize as number) || 100\<close>: an unset or zero batch size is 100.\<close>

definition effective_batchSize :: "int option \<Rightarrow> int" where
  "effective_batchSize configBatchSize =
     (case configBatchSize of None \<Rightarrow> 100 | Some b \<Rightarrow> if b = 0 then 100 else b)"

text \<open>The handler from \<^verbatim>\<open>let batchNumber = 0\<close> on, with the parameters bound, under a
  schedule of driver callbacks and later pulls; the loop's first pull starts the
  generator.\<close>

definition stream_batches :: "db_request \<Rightarrow> string \<Rightarrow> int \<Rightarrow> row action list \<Rightarrow> outcome" where
  "stream_batches req query batchSize sched =
     (let g = run (streamRows req query) (Pull # sched)
      in case stream_loop batchSize 0 [] (out g) of
           (evs, e) \<Rightarrow>
             \<lparr>issued = queries g, emitted = evs,
              failed = (case e of Failed x \<Rightarrow> Some x | _ \<Rightarrow> None)\<rparr>)"

definition streamQuery ::
  "got_pool \<Rightarrow> input_check \<Rightarrow> string \<Rightarrow> row option \<Rightarrow> int option \<Rightarrow> row action list
     \<Rightarrow> outcome"
where
  "streamQuery got refuses query parameters configBatchSize sched =
     (let batchSize = effective_batchSize configBatchSize
      in case got of
           Inl e \<Rightarrow> rejected e
         | Inr db \<Rightarrow>
             (case bind_parameters refuses parameters new_request of
                Inl e \<Rightarrow> rejected e
              | Inr req \<Rightarrow> stream_batches req query batchSize sched))"

section \<open>getTableInfo\<close>

text \<open>The four query texts, character for character.\<close>

definition tableQuery :: string where
  "tableQuery = concat [
    ''\<newline>'',
    ''          SELECT\<newline>'',
    ''            s.name AS table_schema,\<newline>'',
    ''            t.name AS table_name,\<newline>'',
    ''            CASE WHEN t.type = 'U' THEN 'BASE TABLE' WHEN t.type = 'V' THEN 'VIEW' END AS table_type,\<newline>'',
    ''            CAST(ep.value AS NVARCHAR(MAX)) AS table_comment\<newline>'',
    ''          FROM sys.tables t\<newline>'',
    ''          INNER JOIN sys.schemas s ON t.schema_id = s.schema_id\<newline>'',
    ''          LEFT JOIN sys.extended_properties ep\<newline>'',
    ''            ON ep.major_id = t.object_id AND ep.minor_id = 0 AND ep.name = 'MS_Description'\<newline>'',
    ''          WHERE s.name = @p1 AND t.name = @p2\<newline>'',
    ''        '']"

definition columnsQuery :: string where
  "columnsQuery = concat [
    ''\<newline>'',
    ''          SELECT\<newline>'',
    ''            c.name AS column_name,\<newline>'',
    ''            TYPE_NAME(c.user_type_id) AS data_type,\<newline>'',
    ''            CASE WHEN c.is_nullable = 1 THEN 'YES' ELSE 'NO' END AS is_nullable,\<newline>'',
    ''            dc.definition AS column_default,\<newline>'',
    ''            c.max_length AS character_maximum_length,\<newline>'',
    ''            c.precision AS numeric_precision,\<newline>'',
    ''            c.scale AS numeric_scale,\<newline>'',
    ''            CAST(ep.value AS NVARCHAR(MAX)) AS column_comment\<newline>'',
    ''          FROM sys.columns c\<newline>'',
    ''          INNER JOIN sys.tables t ON c.object_id = t.object_id\<newline>'',
    ''          INNER JOIN sys.schemas s ON t.schema_id = s.schema_id\<newline>'',
    ''          LEFT JOIN sys.default_constraints dc ON c.default_object_id = dc.object_id\<newline>'',
    ''          LEFT JOIN sys.extended_properties ep\<newline>'',
    ''            ON ep.major_id = c.object_id AND ep.minor_id = c.column_id AND ep.name = 'MS_Description'\<newline>'',
    ''          WHERE s.name = @p1 AND t.name = @p2\<newline>'',
    ''          ORDER BY c.column_id\<newline>'',
    ''        '']"

definition constraintsQuery :: string where
  "constraintsQuery = concat [
    ''\<newline>'',
    ''          SELECT\<newline>'',
    ''            kc.name AS constraint_name,\<newline>'',
    ''            kc.type_desc AS constraint_type,\<newline>'',
    ''            STRING_AGG(c.name, ', ') WITHIN GROUP (ORDER BY ic.key_ordinal) AS columns,\<newline>'',
    ''            NULL AS foreign_table_schema,\<newline>'',
    ''            NULL AS foreign_table_name,\<newline>'',
    ''            NULL AS foreign_columns\<newline>'',
    ''          FROM sys.key_constraints kc\<newline>'',
    ''          INNER JOIN sys.tables t ON kc.parent_object_id = t.object_id\<newline>'',
    ''          INNER JOIN sys.schemas s ON t.schema_id = s.schema_id\<newline>'',
    ''          INNER JOIN sys.index_columns ic ON kc.parent_object_id = ic.object_id AND kc.unique_index_id = ic.index_id\<newline>'',
    ''          INNER JOIN sys.columns c ON ic.object_id = c.object_id AND ic.column_id = c.column_id\<newline>'',
    ''          WHERE s.name = @p1 AND t.name = @p2\<newline>'',
    ''          GROUP BY kc.name, kc.type_desc\<newline>'',
    ''\<newline>'',
    ''          UNION ALL\<newline>'',
    ''\<newline>'',
    ''          SELECT\<newline>'',
    ''            fk.name AS constraint_name,\<newline>'',
    ''            'FOREIGN_KEY' AS constraint_type,\<newline>'',
    ''            STRING_AGG(pc.name, ', ') WITHIN GROUP (ORDER BY fkc.constraint_column_id) AS columns,\<newline>'',
    ''            rs.name AS foreign_table_schema,\<newline>'',
    ''            rt.name AS foreign_table_name,\<newline>'',
    ''            STRING_AGG(rc.name, ', ') WITHIN GROUP (ORDER BY fkc.constraint_column_id) AS foreign_columns\<newline>'',
    ''          FROM sys.foreign_keys fk\<newline>'',
    ''          INNER JOIN sys.tables pt ON fk.parent_object_id = pt.object_id\<newline>'',
    ''          INNER JOIN sys.schemas ps ON pt.schema_id = ps.schema_id\<newline>'',
    ''          INNER JOIN sys.tables rt ON fk.referenced_object_id = rt.object_id\<newline>'',
    ''          INNER JOIN sys.schemas rs ON rt.schema_id = rs.schema_id\<newline>'',
    ''          INNER JOIN sys.foreign_key_columns fkc ON fk.object_id = fkc.constraint_object_id\<newline>'',
    ''          INNER JOIN sys.columns pc ON fkc.parent_object_id = pc.object_id AND fkc.parent_column_id = pc.column_id\<newline>'',
    ''          INNER JOIN sys.columns rc ON fkc.referenced_object_id = rc.object_id AND fkc.referenced_column_id = rc.column_id\<newline>'',
    ''          WHERE ps.name = @p1 AND pt.name = @p2\<newline>'',
    ''          GROUP BY fk.name, rs.name, rt.name\<newline>'',
    ''        '']"

definition indexesQuery :: string where
  "indexesQuery = concat [
    ''\<newline>'',
    ''          SELECT\<newline>'',
    ''            i.name AS index_name,\<newline>'',
    ''            i.is_unique,\<newline>'',
    ''            i.is_primary_key AS is_primary,\<newline>'',
    ''            STRING_AGG(c.name, ', ') WITHIN GROUP (ORDER BY ic.key_ordinal) AS columns\<newline>'',
    ''          FROM sys.indexes i\<newline>'',
    ''          INNER JOIN sys.tables t ON i.object_id = t.object_id\<newline>'',
    ''          INNER JOIN sys.schemas s ON t.schema_id = s.schema_id\<newline>'',
    ''          INNER JOIN sys.index_columns ic ON i.object_id = ic.object_id AND i.index_id = ic.index_id\<newline>'',
    ''          INNER JOIN sys.columns c ON ic.object_id = c.object_id AND ic.column_id = c.column_id\<newline>'',
    ''          WHERE s.name = @p1 AND t.name = @p2 AND i.name IS NOT NULL\<newline>'',
    ''          GROUP BY i.name, i.is_unique, i.is_primary_key\<newline>'',
    ''        '']"

definition info_request :: "string \<Rightarrow> string \<Rightarrow> string \<Rightarrow> db_request" where
  "info_request actualSchema table q =
     (input ''p2'' (JString table) (input ''p1'' (JString actualSchema) new_request))
       \<lparr>sql_text := q\<rparr>"

definition column_info :: "row \<Rightarrow> row" where
  "column_info col =
     [(''name'', get_prop col ''column_name''),
      (''dataType'', get_prop col ''data_type''),
      (''nullable'', JBool (get_prop col ''is_nullable'' = JString ''YES'')),
      (''defaultValue'', get_prop col ''column_default''),
      (''maxLength'', get_prop col ''character_maximum_length''),
      (''numericPrecision'', get_prop col ''numeric_precision''),
      (''numericScale'', get_prop col ''numeric_scale''),
      (''comment'', get_prop col ''column_comment'')]"

definition constraint_info :: "row \<Rightarrow> row" where
  "constraint_info con =
     [(''name'', get_prop con ''constraint_name''),
      (''type'', get_prop con ''constraint_type''),
      (''columns'', get_prop con ''columns''),
      (''foreignTableSchema'', get_prop con ''foreign_table_schema''),
      (''foreignTableName'', get_prop con ''foreign_table_name''),
      (''foreignColumns'', get_prop con ''foreign_columns'')]"

definition index_info :: "row \<Rightarrow> row" where
  "index_info idx =
     [(''name'', get_prop idx ''index_name''),
      (''isUnique'', get_prop idx ''is_unique''),
      (''isPrimary'', get_prop idx ''is_primary''),
      (''columns'', get_prop idx ''columns'')]"

text \<open>\<^verbatim>\<open>schemaName || "dbo"\<close>: an unset or empty schema name is \<^verbatim>\<open>dbo\<close>.\<close>

definition actual_schema :: "string option \<Rightarrow> string" where
  "actual_schema schemaName =
     (case schemaName of None \<Rightarrow> ''dbo'' | Some s \<Rightarrow> if s = [] then ''dbo'' else s)"

text \<open>The handler from \<^verbatim>\<open>const tableQuery\<close> on, with the pool in hand.\<close>

definition table_info :: "database \<Rightarrow> string \<Rightarrow> string \<Rightarrow> outcome" where
  "table_info db actualSchema table =
     (let tableRequest = info_request actualSchema table tableQuery
      in case db tableRequest of
           Inl e \<Rightarrow> \<lparr>issued = [tableRequest], emitted = [], failed = Some e\<rparr>
         | Inr tableResult \<Rightarrow>
             (case recordset tableResult of
                [] \<Rightarrow>
                  \<lparr>issued = [tableRequest], emitted = [],
                   failed = Some (''Table '' @ actualSchema @ ''.'' @ table @ '' not found'')\<rparr>
              | tableInfo # _ \<Rightarrow>
                  (let columnsRequest = info_request actualSchema table columnsQuery
                   in case db columnsRequest of
                        Inl e \<Rightarrow>
                          \<lparr>issued = [tableRequest, columnsRequest], emitted = [], failed = Some e\<rparr>
                      | Inr columnsResult \<Rightarrow>
                          (let constraintsRequest = info_request actualSchema table constraintsQuery
                           in case db constraintsRequest of
                                Inl e \<Rightarrow>
                                  \<lparr>issued = [tableRequest, columnsRequest, constraintsRequest],
                                   emitted = [], failed = Some e\<rparr>
                              | Inr constraintsResult \<Rightarrow>
                                  (let indexesRequest = info_request actualSchema table indexesQuery
                                   in case db indexesRequest of
                                        Inl e \<Rightarrow>
                                          \<lparr>issued = [tableRequest, columnsRequest,
                                                     constraintsRequest, indexesRequest],
                                           emitted = [], failed = Some e\<rparr>
                                      | Inr indexesResult \<Rightarrow>
                                          \<lparr>issued = [tableRequest, columnsRequest,
                                                     constraintsRequest, indexesRequest],
                                           emitted =
                                             [TableInfoEvent
                                                (get_prop tableInfo ''table_schema'')
                                                (get_prop tableInfo ''table_name'')
                                                (get_prop tableInfo ''table_type'')
                                                (get_prop tableInfo ''table_comment'')
                                                (map column_info (recordset columnsResult))
                                                (map constraint_info (recordset constraintsResult))
                                                (map index_info (recordset indexesResult))],
                                           failed = None\<rparr>)))))"

definition getTableInfo :: "got_pool \<Rightarrow> string option \<Rightarrow> string \<Rightarrow> outcome" where
  "getTableInfo got schemaName table =
     (let actualSchema = actual_schema schemaName
      in case got of
           Inl e \<Rightarrow> rejected e
         | Inr db \<Rightarrow> table_info db actualSchema table)"

section \<open>The pool manager\<close>

record app_config =
  server :: string
  port :: int
  database :: string
  username :: string
  password :: "string option"
  encrypt :: bool
  trustServerCertificate :: bool
  caCertificate :: "string option"
  connectionTimeout :: int
  requestTimeout :: "int option"

text \<open>
  \<^verbatim>\<open>getConfigHash\<close> copies the ten fields into a fresh object and hashes its JSON text.
  \<^verbatim>\<open>JSON.stringify\<close> and SHA-256 belong to the runtime; their composition is the
  parameter \<open>digest\<close>.
\<close>

definition configForHash :: "app_config \<Rightarrow> app_config" where
  "configForHash appConfig =
     \<lparr>server = server appConfig,
      port = port appConfig,
      database = database appConfig,
      username = username appConfig,
      password = password appConfig,
      encrypt = encrypt appConfig,
      trustServerCertificate = trustServerCertificate appConfig,
      caCertificate = caCertificate appConfig,
      connectionTimeout = connectionTimeout appConfig,
      requestTimeout = requestTimeout appConfig\<rparr>"

definition getConfigHash :: "(app_config \<Rightarrow> 'h) \<Rightarrow> app_config \<Rightarrow> 'h" where
  "getConfigHash digest appConfig = digest (configForHash appConfig)"

record pool_limits =
  pool_max :: nat
  pool_min :: nat
  idleTimeoutMillis :: nat

record driver_options =
  opt_encrypt :: bool
  opt_trustServerCertificate :: bool
  cryptoCredentialsDetails :: "string option"

record sql_config =
  cfg_server :: string
  cfg_port :: int
  cfg_database :: string
  cfg_user :: string
  cfg_password :: "string option"
  cfg_connectionTimeout :: int
  cfg_requestTimeout :: "int option"
  cfg_pool :: pool_limits
  cfg_options :: driver_options

definition createPoolConfig :: "app_config \<Rightarrow> sql_config" where
  "createPoolConfig appConfig =
     \<lparr>cfg_server = server appConfig,
      cfg_port = port appConfig,
      cfg_database = database appConfig,
      cfg_user = username appConfig,
      cfg_password = password appConfig,
      cfg_connectionTimeout = connectionTimeout appConfig * 1000,
      cfg_requestTimeout = requestTimeout appConfig,
      cfg_pool = \<lparr>pool_max = 10, pool_min = 0, idleTimeoutMillis = 30000\<rparr>,
      cfg_options =
        \<lparr>opt_encrypt = encrypt appConfig,
         opt_trustServerCertificate = trustServerCertificate appConfig,
         cryptoCredentialsDetails =
           (case caCertificate appConfig of
              None \<Rightarrow> None
            | Some ca \<Rightarrow> if ca = [] then None else Some ca)\<rparr>\<rparr>"

text \<open>
  The module's three variables, together with what they refer to. Pool objects live in
  \<open>heap\<close> and are named by their index; the promise of an initialization is named by
  the index of its task in \<open>tasks\<close>. A task is the async function of \<^verbatim>\<open>getPool\<close>,
  suspended at \<^verbatim>\<open>await globalPool.close()\<close> or at \<^verbatim>\<open>await newPool.connect()\<close>, or
  settled. \<open>effects\<close> is the order of the calls on the driver and of their completions;
  \<open>returned\<close> lists what each call of \<^verbatim>\<open>getPool\<close> handed back.

  The driver's part: a pool is not connected until \<^verbatim>\<open>connect\<close> succeeds, \<^verbatim>\<open>close\<close> marks
  it as not connected, and both settle in a later turn of the event loop.
\<close>

record pool_obj =
  pool_config :: sql_config
  connected :: bool

datatype 'h task =
    Closing app_config 'h nat
  | Connecting 'h nat
  | Resolved nat
  | Rejected

datatype effect =
    CloseCalled nat
  | CloseSettled nat bool
  | Created nat
  | ConnectCalled nat
  | ConnectSettled nat bool

datatype ret = RPool nat | RPromise nat

record 'h pool_state =
  globalPool :: "nat option"
  currentConfigHash :: "'h option"
  poolInitializationPromise :: "nat option"
  heap :: "pool_obj list"
  tasks :: "'h task list"
  effects :: "effect list"
  returned :: "ret list"

definition initial_state :: "'h pool_state" where
  "initial_state =
     \<lparr>globalPool = None, currentConfigHash = None, poolInitializationPromise = None,
      heap = [], tasks = [], effects = [], returned = []\<rparr>"

definition is_connected :: "'h pool_state \<Rightarrow> nat \<Rightarrow> bool" where
  "is_connected st g = (g < length (heap st) \<and> connected (heap st ! g))"

definition task_at :: "'h pool_state \<Rightarrow> nat \<Rightarrow> 'h task option" where
  "task_at st t = (if t < length (tasks st) then Some (tasks st ! t) else None)"

text \<open>\<^verbatim>\<open>new sql.ConnectionPool(poolConfig)\<close>, the error handler and the call of
  \<^verbatim>\<open>newPool.connect()\<close>, up to the \<^verbatim>\<open>await\<close>: the new pool and the state.\<close>

definition create_and_connect :: "app_config \<Rightarrow> 'h pool_state \<Rightarrow> nat \<times> 'h pool_state" where
  "create_and_connect appConfig st =
     (let poolConfig = createPoolConfig appConfig;
          newPool = length (heap st)
      in (newPool,
          st\<lparr>heap := heap st @ [\<lparr>pool_config = poolConfig, connected = False\<rparr>],
             effects := effects st @ [Created newPool, ConnectCalled newPool]\<rparr>))"

text \<open>The async function inside \<^verbatim>\<open>getPool\<close> from its start to its first \<^verbatim>\<open>await\<close>;
  its task is appended to \<open>tasks\<close>.\<close>

definition begin_initialization :: "app_config \<Rightarrow> 'h \<Rightarrow> 'h pool_state \<Rightarrow> 'h pool_state" where
  "begin_initialization appConfig configHash st =
     (case (if currentConfigHash st \<noteq> Some configHash then globalPool st else None) of
        Some g \<Rightarrow>
          st\<lparr>heap := (heap st)[g := (heap st ! g)\<lparr>connected := False\<rparr>],
             tasks := tasks st @ [Closing appConfig configHash g],
             effects := effects st @ [CloseCalled g]\<rparr>
      | None \<Rightarrow>
          (case create_and_connect appConfig st of
             (newPool, st') \<Rightarrow> st'\<lparr>tasks := tasks st' @ [Connecting configHash newPool]\<rparr>))"

definition start_initialization :: "app_config \<Rightarrow> 'h \<Rightarrow> 'h pool_state \<Rightarrow> ret \<times> 'h pool_state" where
  "start_initialization appConfig configHash st =
     (let promise = length (tasks st)
      in (RPromise promise,
          (begin_initialization appConfig configHash st)
            \<lparr>poolInitializationPromise := Some promise\<rparr>))"

definition join_or_start :: "app_config \<Rightarrow> 'h \<Rightarrow> 'h pool_state \<Rightarrow> ret \<times> 'h pool_state" where
  "join_or_start appConfig configHash st =
     (case poolInitializationPromise st of
        Some p \<Rightarrow>
          if currentConfigHash st = Some configHash then (RPromise p, st)
          else start_initialization appConfig configHash st
      | None \<Rightarrow> start_initialization appConfig configHash st)"

definition getPool ::
  "(app_config \<Rightarrow> 'h) \<Rightarrow> app_config \<Rightarrow> 'h pool_state \<Rightarrow> ret \<times> 'h pool_state"
where
  "getPool digest appConfig st =
     (let configHash = getConfigHash digest appConfig
      in case globalPool st of
           Some g \<Rightarrow>
             if currentConfigHash st = Some configHash \<and> is_connected st g then (RPool g, st)
             else join_or_start appConfig configHash st
         | None \<Rightarrow> join_or_start appConfig configHash st)"

text \<open>The rest of the async function: after \<^verbatim>\<open>close\<close> has settled (an error is logged
  and dropped), and after \<^verbatim>\<open>connect\<close> has settled (\<open>ok\<close> tells whether it succeeded; the
  \<^verbatim>\<open>finally\<close> block runs either way).\<close>

definition close_settles :: "nat \<Rightarrow> bool \<Rightarrow> 'h pool_state \<Rightarrow> 'h pool_state" where
  "close_settles t ok st =
     (case task_at st t of
        Some (Closing appConfig configHash g) \<Rightarrow>
          (case create_and_connect appConfig
                  (st\<lparr>globalPool := None, effects := effects st @ [CloseSettled g ok]\<rparr>) of
             (newPool, st') \<Rightarrow> st'\<lparr>tasks := (tasks st')[t := Connecting configHash newPool]\<rparr>)
      | _ \<Rightarrow> st)"

definition connect_settles :: "nat \<Rightarrow> bool \<Rightarrow> 'h pool_state \<Rightarrow> 'h pool_state" where
  "connect_settles t ok st =
     (case task_at st t of
        Some (Connecting configHash newPool) \<Rightarrow>
          if ok
          then st\<lparr>heap := (heap st)[newPool := (heap st ! newPool)\<lparr>connected := True\<rparr>],
                  globalPool := Some newPool,
                  currentConfigHash := Some configHash,
                  poolInitializationPromise := None,
                  tasks := (tasks st)[t := Resolved newPool],
                  effects := effects st @ [ConnectSettled newPool True]\<rparr>
          else st\<lparr>poolInitializationPromise := None,
                  tasks := (tasks st)[t := Rejected],
                  effects := effects st @ [ConnectSettled newPool False]\<rparr>
      | _ \<Rightarrow> st)"

datatype pool_action =
    CallGetPool app_config
  | CloseSettles nat bool
  | ConnectSettles nat bool

definition pool_step :: "(app_config \<Rightarrow> 'h) \<Rightarrow> 'h pool_state \<Rightarrow> pool_action \<Rightarrow> 'h pool_state" where
  "pool_step digest st a =
     (case a of
        CallGetPool appConfig \<Rightarrow>
          (case getPool digest appConfig st of
             (r, st') \<Rightarrow> st'\<lparr>returned := returned st' @ [r]\<rparr>)
      | CloseSettles t ok \<Rightarrow> close_settles t ok st
      | ConnectSettles t ok \<Rightarrow> connect_settles t ok st)"

fun pool_run :: "(app_config \<Rightarrow> 'h) \<Rightarrow> 'h pool_state \<Rightarrow> pool_action list \<Rightarrow> 'h pool_state" where
  "pool_run digest st [] = st"
| "pool_run digest st (a # as) = pool_run digest (pool_step digest st a) as"

text \<open>The initializations that are running: the tasks between their start and the
  settling of \<^verbatim>\<open>connect\<close>.\<close>

definition running :: "'h task \<Rightarrow> bool" where
  "running t = (case t of Closing _ _ _ \<Rightarrow> True | Connecting _ _ \<Rightarrow> True | _ \<Rightarrow> False)"

definition in_flight :: "'h pool_state \<Rightarrow> nat" where
  "in_flight st = length (filter running (tasks st))"

text \<open>Two configurations and a collision-free digest for evaluating examples.\<close>

definition plain_digest :: "app_config \<Rightarrow> app_config" where
  "plain_digest c = c"

definition config_a :: app_config where
  "config_a =
     \<lparr>server = ''db-a'', port = 1433, database = ''master'', username = ''sa'',
      password = None, encrypt = True, trustServerCertificate = False,
      caCertificate = None, connectionTimeout = 15, requestTimeout = Some 30000\<rparr>"

definition config_b :: app_config where
  "config_b = config_a\<lparr>server := ''db-b''\<rparr>"

definition config_c :: app_config where
  "config_c = config_a\<lparr>server := ''db-c''\<rparr>"

section \<open>The statements of the specification\<close>

text \<open>The row that the specification promises for a driver row: a bigint field as its
  decimal string, every other field unchanged, under the same keys.\<close>

definition spec_row :: "row \<Rightarrow> row" where
  "spec_row d =
     map (\<lambda>(key, v). (key, case v of JBigInt i \<Rightarrow> JString (bigint_toString i) | _ \<Rightarrow> v)) d"

definition is_bigint :: "jsvalue \<Rightarrow> bool" where
  "is_bigint v = (case v of JBigInt _ \<Rightarrow> True | _ \<Rightarrow> False)"

definition has_bigint :: "row \<Rightarrow> bool" where
  "has_bigint r = list_ex (\<lambda>(key, v). is_bigint v) r"

fun event_rows :: "event \<Rightarrow> row list" where
  "event_rows (RowsEvent rs) = rs"
| "event_rows (BatchEvent n rs c m) = rs"
| "event_rows (RowsAffectedEvent n) = []"
| "event_rows (InsertEvent n t) = []"
| "event_rows (TableInfoEvent a b c d cols cons idxs) = []"

text \<open>
  The INSERT statement as the specification words it. The cells of all rows, read row
  by row, are numbered from 1; the group of a row lists the numbers of its cells, which
  start after the cells of the rows before it.
\<close>

definition spec_table :: "string \<Rightarrow> string" where
  "spec_table t =
     join ''.''
       (map (\<lambda>part. ''['' @ filter (\<lambda>c. c \<noteq> CHR ''['' \<and> c \<noteq> CHR '']'') part @ '']'')
          (split CHR ''.'' t))"

definition spec_cols :: "string list \<Rightarrow> string" where
  "spec_cols columns = join '', '' (map (\<lambda>col. ''['' @ col @ '']'') columns)"

definition cells_before :: "jsvalue list list \<Rightarrow> nat \<Rightarrow> nat" where
  "cells_before rows i = sum_list (map length (take i rows))"

definition spec_group :: "jsvalue list list \<Rightarrow> nat \<Rightarrow> string" where
  "spec_group rows i =
     ''('' @ join '', ''
               (map (\<lambda>k. ''@p'' @ nat_toString k)
                  [cells_before rows i + 1 ..< cells_before rows i + 1 + length (rows ! i)])
          @ '')''"

definition spec_groups :: "jsvalue list list \<Rightarrow> string" where
  "spec_groups rows = join '', '' (map (spec_group rows) [0 ..< length rows])"

definition spec_statement :: "string \<Rightarrow> string list \<Rightarrow> jsvalue list list \<Rightarrow> string" where
  "spec_statement t columns rows =
     ''INSERT INTO '' @ spec_table t @ '' ('' @ spec_cols columns @ '') VALUES ''
       @ spec_groups rows"

definition spec_bindings :: "jsvalue list list \<Rightarrow> (string \<times> jsvalue) list" where
  "spec_bindings rows =
     map (\<lambda>(k, v). (''p'' @ nat_toString (k + 1),
                     case v of JBigInt i \<Rightarrow> JString (bigint_toString i) | _ \<Rightarrow> v))
       (enumerate 0 (concat rows))"

definition spec_rowCount :: "int list \<Rightarrow> jsvalue list list \<Rightarrow> int" where
  "spec_rowCount affected rows =
     (if sum_list affected = 0 then int (length rows) else sum_list affected)"

text \<open>
  The batches as the specification words them: the rows cut into runs of \<open>b\<close>, the last
  run possibly shorter, numbered consecutively from \<open>first\<close>, each with its length as
  rowCount. The flag is what the block computes: true on the runs of \<open>b\<close> rows.
\<close>

function chunks :: "nat \<Rightarrow> 'a list \<Rightarrow> 'a list list" where
  "chunks b xs = (if b = 0 \<or> xs = [] then [] else take b xs # chunks b (drop b xs))"
  by pat_completeness auto
termination
  by (relation "measure (\<lambda>(b, xs). length xs)") auto

declare chunks.simps [simp del]

definition spec_batches :: "nat \<Rightarrow> nat \<Rightarrow> row list \<Rightarrow> event list" where
  "spec_batches b first rs =
     map (\<lambda>(i, c). BatchEvent i c (length c) (b \<le> length c)) (enumerate first (chunks b rs))"

text \<open>Databases for evaluating examples: one that answers every query with a single
  row and one affected row, and one that reports no affected rows.\<close>

definition db_one_row :: database where
  "db_one_row req =
     Inr \<lparr>recordset = [[(''id'', JBigInt 7), (''table_name'', JString ''users'')]],
          rowsAffected = [1]\<rparr>"

definition db_silent :: database where
  "db_silent req = Inr \<lparr>recordset = [], rowsAffected = [0, 0]\<rparr>"

text \<open>A check of parameter names for evaluating examples: it refuses a name with a
  space in it.\<close>

definition refuses_spaces :: input_check where
  "refuses_spaces r name v =
     (if CHR '' '' \<in> set name then Some (''SQL injection warning for param '' @ name) else None)"

section \<open>Auxiliary notions of the proofs\<close>

text \<open>The binding of the cell numbered \<open>j\<close> and the group of a row whose first cell is
  numbered \<open>s\<close>.\<close>

definition binding :: "nat \<times> jsvalue \<Rightarrow> string \<times> jsvalue" where
  "binding = (\<lambda>(j, v). (''p'' @ nat_toString j, serializeValue v))"

definition group_at :: "nat \<Rightarrow> jsvalue list \<Rightarrow> string" where
  "group_at s r =
     ''('' @ join '', '' (map (\<lambda>j. ''@p'' @ nat_toString j) [s ..< s + length r]) @ '')''"

text \<open>
  Two invariants of a generator that sees no error. While rows arrive (\<open>RInv\<close>): the
  rows handed out, followed by the queue, are the rows received; the resolver is set
  exactly while the generator awaits, and then the queue is empty. After \<^verbatim>\<open>done\<close>
  (\<open>DInv\<close>): what was handed out, followed by what the coming pulls will hand out
  (\<open>pending\<close>), is a fixed trace.
\<close>

definition RInv :: "'r gen_state \<Rightarrow> 'r list \<Rightarrow> bool" where
  "RInv st seen =
     ((ctrl st = AtYieldQueue \<or> ctrl st = Awaiting \<or> ctrl st = AtYieldAwaited)
      \<and> error st = None \<and> \<not> isDone st
      \<and> (resolver st = (ctrl st = Awaiting))
      \<and> (ctrl st = Awaiting \<longrightarrow> rowQueue st = [])
      \<and> out st @ map (\<lambda>r. Yielded (Some r)) (rowQueue st) = map (\<lambda>r. Yielded (Some r)) seen)"

definition pending :: "'r gen_state \<Rightarrow> 'r gen_out list" where
  "pending st =
     (if ctrl st = Finished then [] else map (\<lambda>r. Yielded (Some r)) (rowQueue st) @ [Returned])"

definition DInv :: "'r gen_state \<Rightarrow> 'r gen_out list \<Rightarrow> bool" where
  "DInv st target =
     (isDone st \<and> error st = None \<and> \<not> resolver st
      \<and> (ctrl st = AtYieldQueue \<or> ctrl st = AtYieldAwaited \<or> ctrl st = Finished)
      \<and> out st @ pending st = target)"

text \<open>States of the pool manager for evaluating examples: a pool for \<open>config_a\<close> is
  stored and connected; then a call with \<open>config_b\<close> has started to replace it; then a
  call with \<open>config_c\<close> has arrived as well.\<close>

definition connected_state :: "app_config pool_state" where
  "connected_state =
     pool_run plain_digest initial_state [CallGetPool config_a, ConnectSettles 0 True]"

definition replacing_state :: "app_config pool_state" where
  "replacing_state = pool_run plain_digest connected_state [CallGetPool config_b]"

definition racing_state :: "app_config pool_state" where
  "racing_state = pool_run plain_digest replacing_state [CallGetPool config_c]"

section \<open>Lemmas: serialized rows\<close>

lemma update_fresh: "k \<notin> fst ` set acc \<Longrightarrow> AList.update k v acc = acc @ [(k, v)]"
  by (induction acc) auto

lemma fold_serialize:
  "distinct (map fst r) \<Longrightarrow> fst ` set r \<inter> fst ` set acc = {} \<Longrightarrow>
   fold (\<lambda>(key, v) acc. AList.update key (serializeValue v) acc) r acc
     = acc @ map (\<lambda>(key, v). (key, serializeValue v)) r"
proof (induction r arbitrary: acc)
  case Nil
  then show ?case by simp
next
  case (Cons p r)
  obtain k v where p: "p = (k, v)" by (cases p)
  from Cons.prems have fresh: "k \<notin> fst ` set acc" by (auto simp: p)
  from Cons.prems have d: "distinct (map fst r)" and kr: "k \<notin> fst ` set r"
    by (auto simp: p)
  from Cons.prems kr have disj: "fst ` set r \<inter> fst ` set (acc @ [(k, serializeValue v)]) = {}"
    by (auto simp: p)
  show ?case
    using Cons.IH [OF d disj] by (simp add: p update_fresh [OF fresh])
qed

lemma serializeRow_spec: "distinct (map fst d) \<Longrightarrow> serializeRow d = spec_row d"
  using fold_serialize [of d "[]"]
  by (simp add: serializeRow_def spec_row_def serializeValue_def)

lemma spec_row_no_bigint: "\<not> has_bigint (spec_row d)"
  by (auto simp: has_bigint_def spec_row_def list_ex_iff is_bigint_def split: jsvalue.splits)

lemma serializeValue_no_bigint: "\<not> is_bigint (serializeValue v)"
  by (cases v) (simp_all add: serializeValue_def is_bigint_def)

lemma update_no_bigint:
  "\<not> has_bigint acc \<Longrightarrow> \<not> is_bigint v \<Longrightarrow> \<not> has_bigint (AList.update k v acc)"
  by (induction acc) (auto simp: has_bigint_def)

lemma fold_no_bigint:
  "\<not> has_bigint acc \<Longrightarrow>
   \<not> has_bigint (fold (\<lambda>(key, v) acc. AList.update key (serializeValue v) acc) r acc)"
proof (induction r arbitrary: acc)
  case Nil
  then show ?case by simp
next
  case (Cons p r)
  obtain k v where p: "p = (k, v)" by (cases p)
  from Cons.prems have "\<not> has_bigint (AList.update k (serializeValue v) acc)"
    by (rule update_no_bigint) (rule serializeValue_no_bigint)
  then show ?case by (simp add: p Cons.IH)
qed

lemma serializeRow_no_bigint: "\<not> has_bigint (serializeRow d)"
  unfolding serializeRow_def by (rule fold_no_bigint) (simp add: has_bigint_def)

section \<open>Lemmas: binding parameters\<close>

lemma bind_loop_inputs:
  "bind_loop refuses ps r = Inr r' \<Longrightarrow> r' = r\<lparr>inputs := inputs r @ ps\<rparr>"
proof (induction ps arbitrary: r)
  case Nil
  then show ?case by simp
next
  case (Cons p ps)
  obtain name v where p: "p = (name, v)" by (cases p)
  from Cons.prems have "bind_loop refuses ps (input name v r) = Inr r'"
    by (simp add: p split: option.splits)
  then have "r' = (input name v r)\<lparr>inputs := inputs (input name v r) @ ps\<rparr>"
    by (rule Cons.IH)
  then show ?case by (simp add: p input_def)
qed

lemma bind_parameters_inputs:
  "bind_parameters refuses parameters new_request = Inr r \<Longrightarrow>
   r = \<lparr>inputs = (case parameters of None \<Rightarrow> [] | Some ps \<Rightarrow> ps), stream = False, sql_text = []\<rparr>"
  by (auto simp: bind_parameters_def new_request_def dest: bind_loop_inputs)

section \<open>Lemmas: the loops of bulkInsert\<close>

lemma case_input:
  "(case v of JBigInt i \<Rightarrow> input n (JString (bigint_toString i)) r | _ \<Rightarrow> input n v r)
     = input n (serializeValue v) r"
  by (cases v) (simp_all add: serializeValue_def)

lemma row_loop_eq:
  "row_loop vs (ph, req, k) =
     (ph @ map (\<lambda>j. ''@p'' @ nat_toString j) [k ..< k + length vs],
      req\<lparr>inputs := inputs req @ map binding (zip [k ..< k + length vs] vs)\<rparr>,
      k + length vs)"
proof (induction vs arbitrary: ph req k)
  case Nil
  then show ?case by simp
next
  case (Cons v vs)
  have u: "[k ..< k + length (v # vs)] = k # [Suc k ..< Suc k + length vs]"
    by (subst upt_conv_Cons) simp_all
  show ?case
    by (simp only: row_loop.simps case_input Cons.IH u)
       (simp add: input_def binding_def)
qed

lemma cells_before_Cons: "cells_before (r # rs) (Suc i) = length r + cells_before rs i"
  by (simp add: cells_before_def)

lemma cells_before_0: "cells_before rs 0 = 0"
  by (simp add: cells_before_def)

lemma rows_loop_eq:
  "rows_loop rs (vp, req, k) =
     (vp @ map (\<lambda>i. group_at (k + cells_before rs i) (rs ! i)) [0 ..< length rs],
      req\<lparr>inputs := inputs req @ map binding (zip [k ..< k + length (concat rs)] (concat rs))\<rparr>,
      k + length (concat rs))"
proof (induction rs arbitrary: vp req k)
  case Nil
  then show ?case by simp
next
  case (Cons r rs)
  have m: "map (\<lambda>i. group_at (k + cells_before (r # rs) i) ((r # rs) ! i)) [0 ..< length (r # rs)]
         = group_at k r # map (\<lambda>i. group_at (k + length r + cells_before rs i) (rs ! i)) [0 ..< length rs]"
    by (simp only: length_Cons map_upt_Suc)
       (simp add: cells_before_0 cells_before_Cons add.assoc)
  have z: "zip [k ..< k + length (concat (r # rs))] (concat (r # rs))
         = zip [k ..< k + length r] r @ zip [k + length r ..< k + length r + length (concat rs)] (concat rs)"
    using upt_add_eq_append [of k "k + length r" "length (concat rs)"]
    by (simp add: add.assoc)
  show ?case
    by (simp only: rows_loop.simps row_loop_eq prod.case Cons.IH m z)
       (simp add: group_at_def)
qed

lemma foldl_sum: "foldl (\<lambda>sum count. sum + count) a xs = a + sum_list (xs :: int list)"
  by (induction xs arbitrary: a) simp_all

lemma spec_bindings_eq:
  "spec_bindings rows = map binding (zip [1 ..< 1 + length (concat rows)] (concat rows))"
proof -
  have u: "[1 ..< 1 + length (concat rows)] = map Suc [0 ..< length (concat rows)]"
    by (simp only: map_Suc_upt) simp
  have f: "(\<lambda>(k, v). (''p'' @ nat_toString (k + 1),
                      case v of JBigInt i \<Rightarrow> JString (bigint_toString i) | _ \<Rightarrow> v))
           = binding \<circ> (\<lambda>(k, v). (Suc k, v))"
    by (auto simp: fun_eq_iff binding_def serializeValue_def)
  show ?thesis
    by (simp only: spec_bindings_def enumerate_eq_zip u zip_map1 f map_map add_0)
qed

lemma rows_loop_spec:
  "rows_loop rows ([], new_request, 1) =
     (map (spec_group rows) [0 ..< length rows],
      \<lparr>inputs = spec_bindings rows, stream = False, sql_text = []\<rparr>,
      1 + length (concat rows))"
proof -
  have g: "map (\<lambda>i. group_at (1 + cells_before rows i) (rows ! i)) [0 ..< length rows]
         = map (spec_group rows) [0 ..< length rows]"
    by (simp add: group_at_def spec_group_def)
  show ?thesis
    by (simp only: rows_loop_eq g spec_bindings_eq) (simp add: new_request_def)
qed

lemma sanitizeTableName_spec: "sanitizeTableName table = spec_table table"
proof -
  have "sanitizeIdentifier =
          (\<lambda>part. ''['' @ filter (\<lambda>c. c \<noteq> CHR ''['' \<and> c \<noteq> CHR '']'') part @ '']'')"
    by (rule ext) (simp add: sanitizeIdentifier_def)
  then show ?thesis
    by (simp add: sanitizeTableName_def spec_table_def)
qed

lemma rowCount_spec:
  "(if totalRowsAffected result = 0 then int (length rows) else totalRowsAffected result)
     = spec_rowCount (rowsAffected result) rows"
  by (simp add: totalRowsAffected_def spec_rowCount_def foldl_sum)

lemma insert_rows_closed_form:
  assumes "rows \<noteq> []"
  shows "insert_rows db table columns rows =
     (let request = \<lparr>inputs = spec_bindings rows, stream = False,
                     sql_text = spec_statement table columns rows\<rparr>
      in case db request of
           Inl e \<Rightarrow> \<lparr>issued = [request], emitted = [], failed = Some e\<rparr>
         | Inr result \<Rightarrow>
             \<lparr>issued = [request],
              emitted = [InsertEvent (spec_rowCount (rowsAffected result) rows) table],
              failed = None\<rparr>)"
proof -
  define request where
    "request = \<lparr>inputs = spec_bindings rows, stream = False,
                sql_text = spec_statement table columns rows\<rparr>"
  have q: "''INSERT INTO '' @ sanitizeTableName table @ '' (''
             @ join '', '' (map (\<lambda>col. ''['' @ col @ '']'') columns) @ '') VALUES ''
             @ join '', '' (map (spec_group rows) [0 ..< length rows])
           = spec_statement table columns rows"
    by (simp only: spec_statement_def spec_cols_def spec_groups_def sanitizeTableName_spec)
  have r: "\<lparr>inputs = spec_bindings rows, stream = False, sql_text = []\<rparr>
             \<lparr>sql_text := spec_statement table columns rows\<rparr> = request"
    by (simp add: request_def)
  from assms have n: "length rows \<noteq> 0" by simp
  have "insert_rows db table columns rows =
     (case db request of
           Inl e \<Rightarrow> \<lparr>issued = [request], emitted = [], failed = Some e\<rparr>
         | Inr result \<Rightarrow>
             \<lparr>issued = [request],
              emitted = [InsertEvent (spec_rowCount (rowsAffected result) rows) table],
              failed = None\<rparr>)"
    by (simp only: insert_rows_def n if_False rows_loop_spec prod.case Let_def q r rowCount_spec)
  then show ?thesis
    by (simp only: Let_def request_def)
qed

section \<open>Lemmas: the row generator\<close>

lemmas gen_defs = step_def pull_def loop_top_def executor_def on_row_def on_error_def
  on_done_def resolve_def reject_def

lemma first_pull:
  "step (streamRows req q) Pull =
     \<lparr>ctrl = Awaiting, request = req\<lparr>sql_text := q, stream := True\<rparr>,
      queries = [req\<lparr>sql_text := q, stream := True\<rparr>],
      resolver = True, rejecter = True, rowQueue = [], isDone = False, error = None,
      out = []\<rparr>"
  by (simp add: gen_defs streamRows_def)

lemma RInv_first: "RInv (step (streamRows req q) Pull) []"
  by (simp add: first_pull RInv_def)

lemma RInv_pull: "RInv st seen \<Longrightarrow> RInv (step st Pull) seen"
  by (auto simp: RInv_def gen_defs split: list.splits)

lemma RInv_row: "RInv st seen \<Longrightarrow> RInv (step st (Drv (RowEv r))) (seen @ [r])"
  by (auto simp: RInv_def gen_defs)

lemma RInv_queue: "RInv st seen \<Longrightarrow> length (rowQueue st) \<le> length seen"
proof -
  assume "RInv st seen"
  then have "length (out st @ map (\<lambda>r. Yielded (Some r)) (rowQueue st))
             = length (map (\<lambda>r. Yielded (Some r)) seen)"
    by (simp only: RInv_def)
  then show ?thesis by simp
qed

lemma DInv_done:
  "RInv st seen \<Longrightarrow>
   DInv (step st (Drv DoneEv))
     (map (\<lambda>r. Yielded (Some r)) seen
        @ (if ctrl st = Awaiting then [Yielded None] else []) @ [Returned])"
  by (auto simp: RInv_def DInv_def pending_def gen_defs)

lemma pending_done:
  "RInv st seen \<Longrightarrow> length (pending (step st (Drv DoneEv))) \<le> length seen + 1"
  using RInv_queue [of st seen]
  by (auto simp: RInv_def pending_def gen_defs)

lemma DInv_pull: "DInv st target \<Longrightarrow> DInv (step st Pull) target"
  by (auto simp: DInv_def pending_def gen_defs split: list.splits)

lemma pending_pull:
  "DInv st target \<Longrightarrow> length (pending (step st Pull)) = length (pending st) - 1"
  by (auto simp: DInv_def pending_def gen_defs split: list.splits)

lemma DInv_pulls:
  "DInv st target \<Longrightarrow> length (pending st) \<le> n \<Longrightarrow> out (run st (replicate n Pull)) = target"
proof (induction n arbitrary: st)
  case 0
  then show ?case by (simp add: DInv_def)
next
  case (Suc n)
  have "length (pending (step st Pull)) \<le> n"
    using Suc.prems by (simp add: pending_pull)
  with Suc.IH [OF DInv_pull [OF Suc.prems(1)]] show ?case by simp
qed

lemma DInv_run:
  "DInv st target \<Longrightarrow> drv_events s = [] \<Longrightarrow>
   DInv (run st s) target \<and> length (pending (run st s)) \<le> length (pending st)"
proof (induction s arbitrary: st)
  case Nil
  then show ?case by simp
next
  case (Cons a s)
  from Cons.prems(2) have a: "a = Pull" and s: "drv_events s = []"
    by (cases a; simp)+
  from Cons.IH [OF DInv_pull [OF Cons.prems(1)] s] pending_pull [OF Cons.prems(1)]
  show ?case by (auto simp: a)
qed

lemma run_append: "run st (s @ t) = run (run st s) t"
  by (induction s arbitrary: st) simp_all

lemma rows_then_done:
  "RInv st seen \<Longrightarrow> drv_events s = map RowEv rs @ [DoneEv] \<Longrightarrow>
   length (seen @ rs) + 1 \<le> n \<Longrightarrow>
   out (run st (s @ replicate n Pull)) =
     map (\<lambda>r. Yielded (Some r)) (seen @ rs)
       @ (if ctrl (run st (before_done s)) = Awaiting then [Yielded None] else [])
       @ [Returned]"
proof (induction s arbitrary: st seen rs)
  case Nil
  then show ?case by simp
next
  case (Cons a s)
  show ?case
  proof (cases a)
    case Pull
    with Cons.prems have "drv_events s = map RowEv rs @ [DoneEv]" by simp
    from Cons.IH [OF RInv_pull [OF Cons.prems(1)] this Cons.prems(3)]
    show ?thesis by (simp add: Pull)
  next
    case (Drv e)
    show ?thesis
    proof (cases e)
      case (RowEv r)
      with Drv Cons.prems(2) obtain rs' where rs: "rs = r # rs'"
        and s: "drv_events s = map RowEv rs' @ [DoneEv]"
        by (cases rs) auto
      from Cons.prems(3) have n: "length ((seen @ [r]) @ rs') + 1 \<le> n"
        by (simp add: rs)
      from Cons.IH [OF RInv_row [OF Cons.prems(1)] s n]
      show ?thesis by (simp add: Drv RowEv rs)
    next
      case (ErrorEv x)
      with Drv Cons.prems(2) show ?thesis by (cases rs) auto
    next
      case DoneEv
      with Drv Cons.prems(2) have rs: "rs = []" and s: "drv_events s = []"
        by (cases rs; auto)+
      let ?st = "step st (Drv DoneEv)"
      let ?t = "map (\<lambda>r. Yielded (Some r)) seen
                  @ (if ctrl st = Awaiting then [Yielded None] else []) @ [Returned]"
      have d: "DInv ?st ?t" by (rule DInv_done [OF Cons.prems(1)])
      from DInv_run [OF d s] pending_done [OF Cons.prems(1)] Cons.prems(3)
      have "DInv (run ?st s) ?t" and "length (pending (run ?st s)) \<le> n"
        by (simp_all add: rs)
      then have "out (run (run ?st s) (replicate n Pull)) = ?t"
        by (rule DInv_pulls)
      then show ?thesis
        by (simp add: Drv DoneEv rs run_append)
    qed
  qed
qed

lemma step_started:
  "ctrl st \<noteq> NotStarted \<Longrightarrow>
   ctrl (step st a) \<noteq> NotStarted \<and> queries (step st a) = queries st"
  by (cases a) (auto simp: gen_defs Let_def split: gen_ctrl.splits option.splits list.splits driver_event.splits)

lemma run_started: "ctrl st \<noteq> NotStarted \<Longrightarrow> queries (run st s) = queries st"
proof (induction s arbitrary: st)
  case Nil
  then show ?case by simp
next
  case (Cons a s)
  from step_started [OF Cons.prems, of a] Cons.IH [of "step st a"]
  show ?case by simp
qed

lemma stream_batches_issued:
  "issued (stream_batches req query batchSize sched) = [req\<lparr>sql_text := query, stream := True\<rparr>]"
proof -
  let ?g = "step (streamRows req query :: row gen_state) Pull"
  have "ctrl ?g \<noteq> NotStarted" by (simp add: first_pull)
  then have "queries (run ?g sched) = queries ?g" by (rule run_started)
  then show ?thesis
    by (simp add: stream_batches_def Let_def first_pull split: prod.splits)
qed

lemma step_rows:
  "Yielded (Some d) \<in> set (out (step st a)) \<or> d \<in> set (rowQueue (step st a)) \<Longrightarrow>
   Yielded (Some d) \<in> set (out st) \<or> d \<in> set (rowQueue st) \<or> a = Drv (RowEv d)"
  by (cases a) (auto simp: gen_defs Let_def split: gen_ctrl.splits option.splits list.splits driver_event.splits if_splits)

lemma run_rows:
  "Yielded (Some d) \<in> set (out (run st s)) \<or> d \<in> set (rowQueue (run st s)) \<Longrightarrow>
   Yielded (Some d) \<in> set (out st) \<or> d \<in> set (rowQueue st) \<or> RowEv d \<in> set (drv_events s)"
proof (induction s arbitrary: st)
  case Nil
  then show ?case by simp
next
  case (Cons a s)
  from Cons.prems have "Yielded (Some d) \<in> set (out (run (step st a) s))
      \<or> d \<in> set (rowQueue (run (step st a) s))" by simp
  then have "Yielded (Some d) \<in> set (out (step st a)) \<or> d \<in> set (rowQueue (step st a))
      \<or> RowEv d \<in> set (drv_events s)" by (rule Cons.IH)
  then show ?case
  proof (elim disjE)
    assume "RowEv d \<in> set (drv_events s)"
    then show ?thesis by (cases a) simp_all
  next
    assume "Yielded (Some d) \<in> set (out (step st a))"
    then have "Yielded (Some d) \<in> set (out st) \<or> d \<in> set (rowQueue st) \<or> a = Drv (RowEv d)"
      using step_rows [of d st a] by blast
    then show ?thesis by auto
  next
    assume "d \<in> set (rowQueue (step st a))"
    then have "Yielded (Some d) \<in> set (out st) \<or> d \<in> set (rowQueue st) \<or> a = Drv (RowEv d)"
      using step_rows [of d st a] by blast
    then show ?thesis by auto
  qed
qed

lemma stream_loop_rows:
  "stream_loop bs bn cur tr = (evs, e) \<Longrightarrow> ev \<in> set evs \<Longrightarrow> r \<in> set (event_rows ev) \<Longrightarrow>
   r \<in> set cur \<or> (\<exists>d. Yielded (Some d) \<in> set tr \<and> r = serializeRow d)"
proof (induction bs bn cur tr arbitrary: evs e rule: stream_loop.induct)
  case (1 batchSize batchNumber currentBatch)
  then show ?case by simp
next
  case (2 batchSize batchNumber currentBatch tr)
  then show ?case by (auto simp: remaining_def split: if_splits)
next
  case (3 batchSize batchNumber currentBatch e tr)
  then show ?case by simp
next
  case (4 batchSize batchNumber currentBatch tr)
  then show ?case by (auto simp: remaining_def split: if_splits)
next
  case (5 batchSize batchNumber currentBatch r' tr)
  let ?cur = "currentBatch @ [serializeRow r']"
  show ?case
  proof (cases "batchSize \<le> int (length ?cur)")
    case True
    obtain evs' e' where sl: "stream_loop batchSize (batchNumber + 1) [] tr = (evs', e')"
      by (cases "stream_loop batchSize (batchNumber + 1) [] tr")
    with True "5.prems"(1) have evs: "evs = BatchEvent batchNumber ?cur (length ?cur) True # evs'"
      by (simp add: Let_def)
    show ?thesis
    proof (cases "ev \<in> set evs'")
      case True
      from "5.IH"(1) [OF refl _ sl True "5.prems"(3)] \<open>batchSize \<le> int (length ?cur)\<close>
      show ?thesis by auto
    next
      case False
      with evs "5.prems"(2) have "ev = BatchEvent batchNumber ?cur (length ?cur) True" by simp
      with "5.prems"(3) show ?thesis by auto
    qed
  next
    case False
    with "5.prems"(1) have "stream_loop batchSize batchNumber ?cur tr = (evs, e)"
      by (simp add: Let_def)
    from "5.IH"(2) [OF refl _ this "5.prems"(2,3)] False
    show ?thesis by auto
  qed
qed

lemma stream_batches_rows:
  assumes "ev \<in> set (emitted (stream_batches req query batchSize sched))"
    and "r \<in> set (event_rows ev)"
  shows "\<exists>d. RowEv d \<in> set (drv_events sched) \<and> r = serializeRow d"
proof -
  define g1 :: "row gen_state" where "g1 = step (streamRows req query) Pull"
  obtain evs e where sl: "stream_loop batchSize 0 [] (out (run g1 sched)) = (evs, e)"
    by (cases "stream_loop batchSize 0 [] (out (run g1 sched))")
  with assms(1) have "ev \<in> set evs"
    by (simp add: stream_batches_def Let_def g1_def)
  from stream_loop_rows [OF sl this assms(2)]
  obtain d where d: "Yielded (Some d) \<in> set (out (run g1 sched))" and r: "r = serializeRow d"
    by auto
  have "Yielded (Some d) \<in> set (out g1) \<or> d \<in> set (rowQueue g1)
          \<or> RowEv d \<in> set (drv_events sched)"
    by (rule run_rows, rule disjI1, rule d)
  then have "RowEv d \<in> set (drv_events sched)"
    by (simp add: g1_def first_pull)
  with r show ?thesis by blast
qed

lemma streamQuery_rows:
  assumes "ev \<in> set (emitted (streamQuery got refuses query parameters configBatchSize sched))"
    and "r \<in> set (event_rows ev)"
  shows "\<exists>d. RowEv d \<in> set (drv_events sched) \<and> r = serializeRow d"
proof (cases got)
  case (Inl e)
  with assms(1) show ?thesis by (simp add: streamQuery_def rejected_def)
next
  case (Inr db)
  show ?thesis
  proof (cases "bind_parameters refuses parameters new_request")
    case (Inl e)
    with Inr assms(1) show ?thesis by (simp add: streamQuery_def rejected_def)
  next
    case req: (Inr req)
    with Inr assms(1)
    have "ev \<in> set (emitted (stream_batches req query (effective_batchSize configBatchSize) sched))"
      by (simp add: streamQuery_def)
    then show ?thesis using assms(2) by (rule stream_batches_rows)
  qed
qed

section \<open>Lemmas: batches\<close>

lemma chunks_short: "0 < b \<Longrightarrow> length xs < b \<Longrightarrow> chunks b xs = (if xs = [] then [] else [xs])"
  by (simp add: chunks.simps [of b xs] chunks.simps [of b "[]"])

lemma chunks_full: "0 < b \<Longrightarrow> length xs = b \<Longrightarrow> chunks b (xs @ ys) = xs # chunks b ys"
  by (subst chunks.simps) auto

lemma stream_loop_batches:
  assumes "fin = Returned \<or> fin = Yielded None"
  shows "0 < b \<Longrightarrow> length cur < b \<Longrightarrow>
   stream_loop (int b) bn cur (map (\<lambda>r. Yielded (Some r)) rs @ fin # tr)
     = (spec_batches b bn (cur @ map serializeRow rs), Completed)"
proof (induction rs arbitrary: cur bn)
  case Nil
  with assms show ?case
    by (auto simp: spec_batches_def remaining_def chunks_short)
next
  case (Cons r rs)
  let ?cur = "cur @ [serializeRow r]"
  show ?case
  proof (cases "b \<le> length ?cur")
    case True
    with Cons.prems have len: "length ?cur = b" by simp
    from chunks_full [OF Cons.prems(1) len, of "map serializeRow rs"]
    have c: "chunks b (cur @ serializeRow r # map serializeRow rs)
               = ?cur # chunks b (map serializeRow rs)"
      by simp
    from Cons.IH [OF Cons.prems(1), of "[]" "bn + 1"] Cons.prems(1)
    have ih: "stream_loop (int b) (bn + 1) [] (map (\<lambda>r. Yielded (Some r)) rs @ fin # tr)
               = (spec_batches b (bn + 1) (map serializeRow rs), Completed)"
      by simp
    from True len ih show ?thesis
      by (simp add: Let_def spec_batches_def c)
  next
    case False
    then have lt: "length ?cur < b" by simp
    from Cons.IH [OF Cons.prems(1) lt, of bn] False
    show ?thesis by (simp add: Let_def)
  qed
qed

section \<open>The row stream adapter\<close>

text \<open>
  C1, as stated: for every finite sequence of driver row callbacks followed by a done
  callback, the pull sequence of streamRows yields exactly the rows received, in the
  order received, and then terminates, however the pulls interleave with the callbacks.

  The statement fails where the done callback arrives while a pull is waiting: with no
  row at all, the first pull waits, \<^verbatim>\<open>done\<close> resolves it with \<^verbatim>\<open>undefined\<close>, and the
  consumer sees one yielded \<^verbatim>\<open>undefined\<close> and then the end, where the statement
  promises the end alone.
\<close>

theorem streamRows_done_while_waiting:
  "drv_events [Drv DoneEv, Pull :: nat action] = map RowEv [] @ [DoneEv]
   \<and> out (run (streamRows new_request ''SELECT 1'') [Pull, Drv DoneEv, Pull :: nat action])
       = [Yielded None, Returned]
   \<and> out (run (streamRows new_request ''SELECT 1'') [Pull, Drv DoneEv, Pull :: nat action])
       \<noteq> [Returned]"
  by (simp add: gen_defs streamRows_def)

text \<open>
  C1, amended: let the first pull start the query and let the driver's callbacks be the
  rows \<open>rs\<close> followed by \<^verbatim>\<open>done\<close>, interleaved with further pulls in any way (the
  schedule \<open>s\<close>). Then, once the consumer has pulled \<open>length rs + 1\<close> more times, it has
  seen exactly the rows \<open>rs\<close> in the order received, none dropped or repeated, followed
  by one \<^verbatim>\<open>undefined\<close> if and only if the generator was awaiting a row when \<^verbatim>\<open>done\<close>
  arrived, followed by the end of the sequence.
\<close>

theorem streamRows_rows_then_done:
  assumes "drv_events s = map RowEv rs @ [DoneEv]"
  shows "out (run (streamRows req q) (Pull # s @ replicate (length rs + 1) Pull)) =
           map (\<lambda>r. Yielded (Some r)) rs
             @ (if ctrl (run (streamRows req q) (Pull # before_done s)) = Awaiting
                then [Yielded None] else [])
             @ [Returned]"
  using rows_then_done [OF RInv_first assms, of "length rs + 1" req q]
  by simp

theorem streamRows_rows_then_done_witness:
  "drv_events [Drv (RowEv (1::nat)), Drv (RowEv 2), Pull, Pull, Drv DoneEv]
     = map RowEv [1, 2] @ [DoneEv]
   \<and> out (run (streamRows new_request ''SELECT 1'')
             (Pull # [Drv (RowEv (1::nat)), Drv (RowEv 2), Pull, Pull, Drv DoneEv]
                @ replicate (length [1, 2 :: nat] + 1) Pull))
       = [Yielded (Some 1), Yielded (Some 2), Yielded None, Returned]"
proof -
  have h: "drv_events [Drv (RowEv (1::nat)), Drv (RowEv 2), Pull, Pull, Drv DoneEv]
             = map RowEv [1, 2] @ [DoneEv]"
    by simp
  have c: "ctrl (run (streamRows new_request ''SELECT 1'')
                   (Pull # before_done [Drv (RowEv (1::nat)), Drv (RowEv 2), Pull, Pull, Drv DoneEv]))
             = Awaiting"
    by (simp add: gen_defs streamRows_def)
  from streamRows_rows_then_done [OF h, of new_request "''SELECT 1''"] c h
  show ?thesis by simp
qed

text \<open>
  C6. If the driver reports an error during streaming, the pull sequence raises that
  error on the next pull and yields nothing more. The generator misses this when the
  error and \<^verbatim>\<open>done\<close> both arrive after an awaited row was handed out: the next pull
  resumes after the \<^verbatim>\<open>yield\<close>, finds \<^verbatim>\<open>done\<close> set and the queue empty, and returns
  before the loop reaches its \<^verbatim>\<open>if (error) throw error\<close>. The sequence ends normally
  and the error is lost, here and on every later pull.
\<close>

theorem streamRows_error_then_done_lost:
  "out (run (streamRows new_request ''SELECT 1'')
          [Pull, Drv (RowEv (1::nat)), Drv (ErrorEv ''deadlock victim''), Drv DoneEv, Pull, Pull])
     = [Yielded (Some 1), Returned]"
  by (simp add: gen_defs streamRows_def)

section \<open>Queries per block\<close>

text \<open>
  C7, as stated: a successful handling of one input event issues exactly one query, for
  each of the five blocks. Table introspection, when it succeeds, has issued four, and
  a successful bulk insert of no rows has issued none.
\<close>

theorem getTableInfo_issues_four:
  "failed (getTableInfo (Inr db_one_row) None ''users'') = None
   \<and> length (issued (getTableInfo (Inr db_one_row) None ''users'')) = 4
   \<and> failed (bulkInsert (Inr db_one_row) ''users'' [''id''] []) = None
   \<and> length (issued (bulkInsert (Inr db_one_row) ''users'' [''id''] [])) = 0"
  by (simp add: getTableInfo_def table_info_def bulkInsert_def insert_rows_def db_one_row_def
        Let_def)

text \<open>
  C7, amended: a successful handling of one input event issues exactly one query in
  executeQuery, executeCommand and streamQuery (the configured text with the configured
  parameters bound; streamQuery sets the stream flag); in bulkInsert it issues exactly
  one, the INSERT statement, when there are rows and none when there are no rows; in
  getTableInfo it issues exactly four, in this order: the table query, the columns
  query, the constraints query and the indexes query, each with the schema bound to
  \<^verbatim>\<open>p1\<close> and the table to \<^verbatim>\<open>p2\<close>.
\<close>

theorem queries_per_block:
  "(failed (executeQuery got refuses query parameters) = None \<longrightarrow>
      issued (executeQuery got refuses query parameters) =
        [\<lparr>inputs = (case parameters of None \<Rightarrow> [] | Some ps \<Rightarrow> ps), stream = False,
          sql_text = query\<rparr>])
   \<and> (failed (executeCommand got refuses command parameters) = None \<longrightarrow>
      issued (executeCommand got refuses command parameters) =
        [\<lparr>inputs = (case parameters of None \<Rightarrow> [] | Some ps \<Rightarrow> ps), stream = False,
          sql_text = command\<rparr>])
   \<and> (failed (streamQuery got refuses query parameters configBatchSize sched) = None \<longrightarrow>
      issued (streamQuery got refuses query parameters configBatchSize sched) =
        [\<lparr>inputs = (case parameters of None \<Rightarrow> [] | Some ps \<Rightarrow> ps), stream = True,
          sql_text = query\<rparr>])
   \<and> (failed (bulkInsert got table columns rowsData) = None \<longrightarrow>
      issued (bulkInsert got table columns rowsData) =
        (if rowsData = [] then []
         else [\<lparr>inputs = spec_bindings rowsData, stream = False,
                sql_text = spec_statement table columns rowsData\<rparr>]))
   \<and> (failed (getTableInfo got schemaName table) = None \<longrightarrow>
      issued (getTableInfo got schemaName table) =
        map (info_request (actual_schema schemaName) table)
          [tableQuery, columnsQuery, constraintsQuery, indexesQuery])"
proof -
  have a: "failed (executeQuery got refuses query parameters) = None \<longrightarrow>
      issued (executeQuery got refuses query parameters) =
        [\<lparr>inputs = (case parameters of None \<Rightarrow> [] | Some ps \<Rightarrow> ps), stream = False,
          sql_text = query\<rparr>]"
    by (auto simp: executeQuery_def rejected_def Let_def dest!: bind_parameters_inputs
        split: sum.splits)
  have b: "failed (executeCommand got refuses command parameters) = None \<longrightarrow>
      issued (executeCommand got refuses command parameters) =
        [\<lparr>inputs = (case parameters of None \<Rightarrow> [] | Some ps \<Rightarrow> ps), stream = False,
          sql_text = command\<rparr>]"
    by (auto simp: executeCommand_def rejected_def Let_def dest!: bind_parameters_inputs
        split: sum.splits)
  have c: "failed (streamQuery got refuses query parameters configBatchSize sched) = None \<longrightarrow>
      issued (streamQuery got refuses query parameters configBatchSize sched) =
        [\<lparr>inputs = (case parameters of None \<Rightarrow> [] | Some ps \<Rightarrow> ps), stream = True,
          sql_text = query\<rparr>]"
    by (auto simp: streamQuery_def rejected_def Let_def stream_batches_issued
        dest!: bind_parameters_inputs split: sum.splits)
  have d: "failed (bulkInsert got table columns rowsData) = None \<longrightarrow>
      issued (bulkInsert got table columns rowsData) =
        (if rowsData = [] then []
         else [\<lparr>inputs = spec_bindings rowsData, stream = False,
                sql_text = spec_statement table columns rowsData\<rparr>])"
  proof (cases "rowsData = []")
    case True
    then show ?thesis
      by (simp add: bulkInsert_def rejected_def insert_rows_def split: sum.splits)
  next
    case False
    then show ?thesis
      by (simp add: bulkInsert_def rejected_def insert_rows_closed_form Let_def split: sum.splits)
  qed
  have e: "failed (getTableInfo got schemaName table) = None \<longrightarrow>
      issued (getTableInfo got schemaName table) =
        map (info_request (actual_schema schemaName) table)
          [tableQuery, columnsQuery, constraintsQuery, indexesQuery]"
    by (simp add: getTableInfo_def table_info_def rejected_def Let_def
        split: sum.splits list.splits)
  from a b c d e show ?thesis by blast
qed

theorem queries_per_block_witness:
  "issued (executeQuery (Inr db_one_row) refuses_spaces ''SELECT 1'' (Some [(''id'', JNumber 1)]))
     = [\<lparr>inputs = [(''id'', JNumber 1)], stream = False, sql_text = ''SELECT 1''\<rparr>]
   \<and> issued (executeCommand (Inr db_one_row) refuses_spaces ''DELETE FROM t'' None)
     = [\<lparr>inputs = [], stream = False, sql_text = ''DELETE FROM t''\<rparr>]
   \<and> issued (streamQuery (Inr db_one_row) refuses_spaces ''SELECT 1'' (Some [(''id'', JNumber 1)])
               None [Drv DoneEv, Pull])
     = [\<lparr>inputs = [(''id'', JNumber 1)], stream = True, sql_text = ''SELECT 1''\<rparr>]
   \<and> length (issued (bulkInsert (Inr db_one_row) ''orders'' [''id''] [[JNumber 1]])) = 1
   \<and> issued (getTableInfo (Inr db_one_row) (Some ''sales'') ''orders'')
     = [info_request ''sales'' ''orders'' tableQuery, info_request ''sales'' ''orders'' columnsQuery,
        info_request ''sales'' ''orders'' constraintsQuery,
        info_request ''sales'' ''orders'' indexesQuery]"
proof -
  have h1: "failed (executeQuery (Inr db_one_row) refuses_spaces ''SELECT 1''
                      (Some [(''id'', JNumber 1)])) = None"
    by (simp add: executeQuery_def bind_parameters_def refuses_spaces_def db_one_row_def Let_def)
  have h2: "failed (executeCommand (Inr db_one_row) refuses_spaces ''DELETE FROM t'' None) = None"
    by (simp add: executeCommand_def bind_parameters_def db_one_row_def Let_def)
  have h3: "failed (streamQuery (Inr db_one_row) refuses_spaces ''SELECT 1''
                      (Some [(''id'', JNumber 1)]) None [Drv DoneEv, Pull]) = None"
    by (simp add: streamQuery_def stream_batches_def bind_parameters_def refuses_spaces_def
        effective_batchSize_def gen_defs streamRows_def remaining_def Let_def)
  have h4: "failed (bulkInsert (Inr db_one_row) ''orders'' [''id''] [[JNumber 1]]) = None"
    by (simp add: bulkInsert_def insert_rows_closed_form db_one_row_def Let_def)
  have h5: "failed (getTableInfo (Inr db_one_row) (Some ''sales'') ''orders'') = None"
    by (simp add: getTableInfo_def table_info_def db_one_row_def Let_def)
  have s: "actual_schema (Some ''sales'') = ''sales''"
    by (simp add: actual_schema_def)
  from queries_per_block
         [where got = "Inr db_one_row" and refuses = refuses_spaces and query = "''SELECT 1''"
            and parameters = "Some [(''id'', JNumber 1)]" and configBatchSize = None
            and sched = "[Drv DoneEv, Pull]" and table = "''orders''" and columns = "[''id'']"
            and rowsData = "[[JNumber 1]]" and schemaName = "Some ''sales''"
            and command = "''SELECT 1''"]
       h1 h3 h4 h5
  have q: "issued (executeQuery (Inr db_one_row) refuses_spaces ''SELECT 1'' (Some [(''id'', JNumber 1)]))
             = [\<lparr>inputs = [(''id'', JNumber 1)], stream = False, sql_text = ''SELECT 1''\<rparr>]"
    and t: "issued (streamQuery (Inr db_one_row) refuses_spaces ''SELECT 1'' (Some [(''id'', JNumber 1)])
               None [Drv DoneEv, Pull])
             = [\<lparr>inputs = [(''id'', JNumber 1)], stream = True, sql_text = ''SELECT 1''\<rparr>]"
    and i: "issued (bulkInsert (Inr db_one_row) ''orders'' [''id''] [[JNumber 1]])
             = [\<lparr>inputs = spec_bindings [[JNumber 1]], stream = False,
                 sql_text = spec_statement ''orders'' [''id''] [[JNumber 1]]\<rparr>]"
    and g: "issued (getTableInfo (Inr db_one_row) (Some ''sales'') ''orders'')
             = map (info_request (actual_schema (Some ''sales'')) ''orders'')
                 [tableQuery, columnsQuery, constraintsQuery, indexesQuery]"
    by simp_all
  from queries_per_block
         [where got = "Inr db_one_row" and refuses = refuses_spaces
            and command = "''DELETE FROM t''" and parameters = None] h2
  have c: "issued (executeCommand (Inr db_one_row) refuses_spaces ''DELETE FROM t'' None)
             = [\<lparr>inputs = [], stream = False, sql_text = ''DELETE FROM t''\<rparr>]"
    by simp
  from q c t i g show ?thesis by (simp add: s)
qed

section \<open>bulkInsert\<close>

text \<open>
  C8, as stated: every bulkInsert invocation whose rows input is the empty array emits
  exactly one event, \<^verbatim>\<open>{ rowCount: 0, table }\<close>, and issues no statement. The handler
  awaits getPool before it looks at the rows; when that promise rejects (the server
  cannot be reached, say) the invocation emits nothing and fails.
\<close>

theorem bulkInsert_empty_rows_without_pool:
  "emitted (bulkInsert (Inl ''connect ECONNREFUSED'') ''users'' [''id''] []) = []
   \<and> failed (bulkInsert (Inl ''connect ECONNREFUSED'') ''users'' [''id''] [])
       = Some ''connect ECONNREFUSED''
   \<and> emitted (bulkInsert (Inl ''connect ECONNREFUSED'') ''users'' [''id''] [])
       \<noteq> [InsertEvent 0 ''users'']"
  by (simp add: bulkInsert_def rejected_def)

text \<open>
  C8, amended: a bulkInsert invocation whose rows input is the empty array and to which
  getPool hands the pool emits exactly one event, \<^verbatim>\<open>{ rowCount: 0, table }\<close> with the
  configured table name, and hands no statement to the database: no request is built and
  no query is executed. When getPool rejects, the invocation fails with that error,
  emits nothing, and hands no statement to the database either.
\<close>

theorem bulkInsert_empty_rows:
  "bulkInsert (Inr db) table columns [] =
     \<lparr>issued = [], emitted = [InsertEvent 0 table], failed = None\<rparr>
   \<and> bulkInsert (Inl e) table columns [] = \<lparr>issued = [], emitted = [], failed = Some e\<rparr>"
  by (simp add: bulkInsert_def insert_rows_def rejected_def)

text \<open>
  C9. For non-empty rows the one request of bulkInsert carries the statement
  \<^verbatim>\<open>INSERT INTO <t> (<cols>) VALUES <groups>\<close>: \<^verbatim>\<open><t>\<close> is each dot-separated part of the
  table name without its square brackets, wrapped in square brackets; \<^verbatim>\<open><cols>\<close> is
  each column name in square brackets, joined by a comma and a space; the groups name
  the parameters p1, p2, ... consecutively, row by row, one per cell, and each cell is
  bound under its name, a bigint as its decimal string. The emitted rowCount is the sum
  of the driver's rowsAffected, or the number of input rows when that sum is 0. (An
  invocation to which getPool hands no pool builds no statement.)
\<close>

theorem bulkInsert_statement:
  assumes "rows \<noteq> []"
  shows "bulkInsert got table columns rows =
     (case got of
        Inl e \<Rightarrow> \<lparr>issued = [], emitted = [], failed = Some e\<rparr>
      | Inr db \<Rightarrow>
          (let request = \<lparr>inputs = spec_bindings rows, stream = False,
                          sql_text = spec_statement table columns rows\<rparr>
           in case db request of
                Inl e \<Rightarrow> \<lparr>issued = [request], emitted = [], failed = Some e\<rparr>
              | Inr result \<Rightarrow>
                  \<lparr>issued = [request],
                   emitted = [InsertEvent (spec_rowCount (rowsAffected result) rows) table],
                   failed = None\<rparr>))"
proof (cases got)
  case (Inl e)
  then show ?thesis by (simp add: bulkInsert_def rejected_def)
next
  case (Inr db)
  then show ?thesis
    by (simp only: bulkInsert_def sum.case insert_rows_closed_form [OF assms])
qed

theorem bulkInsert_statement_witness:
  "[[JNumber 1, JBigInt 12], [JNull, JString ''x'']] \<noteq> []
   \<and> bulkInsert (Inr db_silent) ''dbo.[t]'' [''a'', ''b'']
         [[JNumber 1, JBigInt 12], [JNull, JString ''x'']]
       = \<lparr>issued =
            [\<lparr>inputs = [(''p1'', JNumber 1), (''p2'', JString ''12''), (''p3'', JNull),
                        (''p4'', JString ''x'')],
              stream = False,
              sql_text = ''INSERT INTO [dbo].[t] ([a], [b]) VALUES (@p1, @p2), (@p3, @p4)''\<rparr>],
          emitted = [InsertEvent 2 ''dbo.[t]''],
          failed = None\<rparr>"
proof -
  have h: "[[JNumber 1, JBigInt 12], [JNull, JString ''x'']] \<noteq> []"
    by simp
  have b: "spec_bindings [[JNumber 1, JBigInt 12], [JNull, JString ''x'']]
             = [(''p1'', JNumber 1), (''p2'', JString ''12''), (''p3'', JNull), (''p4'', JString ''x'')]"
    by code_simp
  have s: "spec_statement ''dbo.[t]'' [''a'', ''b''] [[JNumber 1, JBigInt 12], [JNull, JString ''x'']]
             = ''INSERT INTO [dbo].[t] ([a], [b]) VALUES (@p1, @p2), (@p3, @p4)''"
    by code_simp
  from bulkInsert_statement [OF h, of "Inr db_silent" "''dbo.[t]''" "[''a'', ''b'']"]
  show ?thesis
    by (simp only: b s Let_def sum.case) (simp add: db_silent_def spec_rowCount_def)
qed

section \<open>BigInt values in emitted rows\<close>

text \<open>
  C10. No event emitted by executeQuery or streamQuery contains a bigint: every row of
  such an event is a row of the driver (a row of the recordset, or a row of a row
  callback) in which each bigint field appears as its decimal string and every other
  field appears unchanged under the same key. The rows of the driver are objects, so
  each lists a key once. That no emitted row holds a bigint is the case for every
  invocation, also one that fails or whose rows are not of that kind.
\<close>

theorem emitted_rows_without_bigint:
  assumes "bind_parameters refuses parameters new_request = Inr req"
    and "db (req\<lparr>sql_text := query\<rparr>) = Inr result"
    and "\<forall>d \<in> set (recordset result). distinct (map fst d)"
    and "\<forall>d. RowEv d \<in> set (drv_events sched) \<longrightarrow> distinct (map fst d)"
  shows "emitted (executeQuery (Inr db) refuses query parameters)
           = [RowsEvent (map spec_row (recordset result))]
       \<and> (\<forall>r \<in> set (map spec_row (recordset result)). \<not> has_bigint r)
       \<and> (\<forall>ev \<in> set (emitted (streamQuery sgot srefuses squery sparameters configBatchSize sched)).
            \<forall>r \<in> set (event_rows ev).
              \<not> has_bigint r \<and> (\<exists>d. RowEv d \<in> set (drv_events sched) \<and> r = spec_row d))
       \<and> (\<forall>ev \<in> set (emitted (executeQuery ugot urefuses uquery uparameters)).
            \<forall>r \<in> set (event_rows ev). \<not> has_bigint r)
       \<and> (\<forall>ev \<in> set (emitted (streamQuery ugot urefuses uquery uparameters ubatchSize usched)).
            \<forall>r \<in> set (event_rows ev). \<not> has_bigint r)"
proof -
  from assms(3) have "map serializeRow (recordset result) = map spec_row (recordset result)"
    by (simp add: serializeRow_spec)
  with assms(1,2)
  have a: "emitted (executeQuery (Inr db) refuses query parameters)
             = [RowsEvent (map spec_row (recordset result))]"
    by (simp add: executeQuery_def Let_def)
  have b: "\<forall>r \<in> set (map spec_row (recordset result)). \<not> has_bigint r"
    by (auto simp: spec_row_no_bigint)
  have c: "\<not> has_bigint r \<and> (\<exists>d. RowEv d \<in> set (drv_events sched) \<and> r = spec_row d)"
    if ev: "ev \<in> set (emitted (streamQuery sgot srefuses squery sparameters configBatchSize sched))"
      and r: "r \<in> set (event_rows ev)" for ev r
  proof -
    from streamQuery_rows [OF ev r]
    obtain d where d: "RowEv d \<in> set (drv_events sched)" and rd: "r = serializeRow d"
      by blast
    from d assms(4) have "distinct (map fst d)" by blast
    then have "r = spec_row d" by (simp add: rd serializeRow_spec)
    with d show ?thesis by (auto simp: spec_row_no_bigint)
  qed
  have d: "\<not> has_bigint r"
    if "ev \<in> set (emitted (executeQuery ugot urefuses uquery uparameters))"
      and "r \<in> set (event_rows ev)" for ev r
    using that
    by (auto simp: executeQuery_def rejected_def Let_def serializeRow_no_bigint
        split: sum.splits)
  have e: "\<not> has_bigint r"
    if ev: "ev \<in> set (emitted (streamQuery ugot urefuses uquery uparameters ubatchSize usched))"
      and r: "r \<in> set (event_rows ev)" for ev r
    using streamQuery_rows [OF ev r] by (auto simp: serializeRow_no_bigint)
  from a b c d e show ?thesis by blast
qed

theorem emitted_rows_without_bigint_witness:
  "emitted (executeQuery (Inr db_one_row) refuses_spaces ''SELECT id, table_name FROM t'' None)
     = [RowsEvent [[(''id'', JString ''7''), (''table_name'', JString ''users'')]]]
   \<and> emitted (streamQuery (Inr db_one_row) refuses_spaces ''SELECT id FROM t'' None (Some 5)
                [Drv (RowEv [(''id'', JBigInt 7)]), Pull, Drv DoneEv, Pull])
     = [BatchEvent 0 [spec_row [(''id'', JBigInt 7)]] 1 False]"
proof -
  let ?res = "\<lparr>recordset = [[(''id'', JBigInt 7), (''table_name'', JString ''users'')]],
               rowsAffected = [1]\<rparr>"
  let ?sched = "[Drv (RowEv [(''id'', JBigInt 7)]), Pull, Drv DoneEv, Pull]"
  have h0: "bind_parameters refuses_spaces None new_request = Inr new_request"
    by (simp add: bind_parameters_def)
  have h1: "db_one_row (new_request\<lparr>sql_text := ''SELECT id, table_name FROM t''\<rparr>) = Inr ?res"
    by (simp add: db_one_row_def)
  have h2: "\<forall>d \<in> set (recordset ?res). distinct (map fst d)"
    by simp
  have h3: "\<forall>d. RowEv d \<in> set (drv_events ?sched) \<longrightarrow> distinct (map fst d)"
    by simp
  have e: "spec_row [(''id'', JBigInt 7), (''table_name'', JString ''users'')]
             = [(''id'', JString ''7''), (''table_name'', JString ''users'')]"
    by code_simp
  have ev: "emitted (streamQuery (Inr db_one_row) refuses_spaces ''SELECT id FROM t'' None (Some 5) ?sched)
             = [BatchEvent 0 [serializeRow [(''id'', JBigInt 7)]] 1 False]"
    by (simp add: streamQuery_def stream_batches_def bind_parameters_def effective_batchSize_def
        gen_defs streamRows_def remaining_def Let_def)
  then have m: "BatchEvent 0 [serializeRow [(''id'', JBigInt 7)]] 1 False
                  \<in> set (emitted (streamQuery (Inr db_one_row) refuses_spaces ''SELECT id FROM t''
                                    None (Some 5) ?sched))"
    by simp
  from emitted_rows_without_bigint
         [where db = db_one_row and refuses = refuses_spaces and parameters = None
            and req = new_request
            and query = "''SELECT id, table_name FROM t''" and result = ?res and sched = ?sched
            and sgot = "Inr db_one_row" and srefuses = refuses_spaces
            and squery = "''SELECT id FROM t''" and sparameters = None
            and configBatchSize = "Some 5", OF h0 h1 h2 h3]
  have a: "emitted (executeQuery (Inr db_one_row) refuses_spaces ''SELECT id, table_name FROM t'' None)
             = [RowsEvent (map spec_row (recordset ?res))]"
    and s: "\<forall>ev \<in> set (emitted (streamQuery (Inr db_one_row) refuses_spaces ''SELECT id FROM t''
                                  None (Some 5) ?sched)).
              \<forall>r \<in> set (event_rows ev).
                \<not> has_bigint r \<and> (\<exists>d. RowEv d \<in> set (drv_events ?sched) \<and> r = spec_row d)"
    by blast+
  from s m have "serializeRow [(''id'', JBigInt 7)] = spec_row [(''id'', JBigInt 7)]"
    by fastforce
  with a e ev show ?thesis by simp
qed

section \<open>Lemmas: the pool manager\<close>

lemmas pool_defs = pool_step_def getPool_def join_or_start_def start_initialization_def
  begin_initialization_def create_and_connect_def close_settles_def connect_settles_def
  task_at_def is_connected_def getConfigHash_def

lemma config_a_hash: "plain_digest (configForHash config_a) = config_a"
  by (simp add: plain_digest_def configForHash_def config_a_def)

lemma config_b_hash: "plain_digest (configForHash config_b) = config_b"
  by (simp add: plain_digest_def configForHash_def config_b_def config_a_def)

lemma config_c_hash: "plain_digest (configForHash config_c) = config_c"
  by (simp add: plain_digest_def configForHash_def config_c_def config_a_def)

lemma config_b_differs: "config_a \<noteq> config_b"
  by (simp add: config_b_def config_a_def)

lemma config_c_differs: "config_a \<noteq> config_c"
  by (simp add: config_c_def config_a_def)

lemma connected_state_eq:
  "connected_state =
     \<lparr>globalPool = Some 0, currentConfigHash = Some config_a,
      poolInitializationPromise = None,
      heap = [\<lparr>pool_config = createPoolConfig config_a, connected = True\<rparr>],
      tasks = [Resolved 0],
      effects = [Created 0, ConnectCalled 0, ConnectSettled 0 True],
      returned = [RPromise 0]\<rparr>"
  by (simp add: connected_state_def initial_state_def pool_defs config_a_hash)

lemma replacing_state_eq:
  "replacing_state =
     \<lparr>globalPool = Some 0, currentConfigHash = Some config_a,
      poolInitializationPromise = Some 1,
      heap = [\<lparr>pool_config = createPoolConfig config_a, connected = False\<rparr>],
      tasks = [Resolved 0, Closing config_b config_b 0],
      effects = [Created 0, ConnectCalled 0, ConnectSettled 0 True, CloseCalled 0],
      returned = [RPromise 0, RPromise 1]\<rparr>"
  by (simp add: replacing_state_def connected_state_eq pool_defs config_b_hash config_b_differs)

lemma racing_state_eq:
  "racing_state =
     \<lparr>globalPool = Some 0, currentConfigHash = Some config_a,
      poolInitializationPromise = Some 2,
      heap = [\<lparr>pool_config = createPoolConfig config_a, connected = False\<rparr>],
      tasks = [Resolved 0, Closing config_b config_b 0, Closing config_c config_c 0],
      effects = [Created 0, ConnectCalled 0, ConnectSettled 0 True, CloseCalled 0, CloseCalled 0],
      returned = [RPromise 0, RPromise 1, RPromise 2]\<rparr>"
  by (simp add: racing_state_def replacing_state_eq pool_defs config_c_hash config_c_differs)

lemma racing_close_1:
  "pool_step plain_digest racing_state (CloseSettles 1 True) =
     \<lparr>globalPool = None, currentConfigHash = Some config_a,
      poolInitializationPromise = Some 2,
      heap = [\<lparr>pool_config = createPoolConfig config_a, connected = False\<rparr>,
              \<lparr>pool_config = createPoolConfig config_b, connected = False\<rparr>],
      tasks = [Resolved 0, Connecting config_b 1, Closing config_c config_c 0],
      effects = [Created 0, ConnectCalled 0, ConnectSettled 0 True, CloseCalled 0, CloseCalled 0,
                 CloseSettled 0 True, Created 1, ConnectCalled 1],
      returned = [RPromise 0, RPromise 1, RPromise 2]\<rparr>"
  by (simp add: racing_state_eq pool_step_def close_settles_def task_at_def create_and_connect_def)

lemma racing_close_2:
  "pool_run plain_digest racing_state [CloseSettles 1 True, CloseSettles 2 True] =
     \<lparr>globalPool = None, currentConfigHash = Some config_a,
      poolInitializationPromise = Some 2,
      heap = [\<lparr>pool_config = createPoolConfig config_a, connected = False\<rparr>,
              \<lparr>pool_config = createPoolConfig config_b, connected = False\<rparr>,
              \<lparr>pool_config = createPoolConfig config_c, connected = False\<rparr>],
      tasks = [Resolved 0, Connecting config_b 1, Connecting config_c 2],
      effects = [Created 0, ConnectCalled 0, ConnectSettled 0 True, CloseCalled 0, CloseCalled 0,
                 CloseSettled 0 True, Created 1, ConnectCalled 1,
                 CloseSettled 0 True, Created 2, ConnectCalled 2],
      returned = [RPromise 0, RPromise 1, RPromise 2]\<rparr>"
  by (simp only: pool_run.simps racing_close_1)
     (simp add: pool_step_def close_settles_def task_at_def create_and_connect_def)

lemma pool_run_append:
  "pool_run digest st (as @ bs) = pool_run digest (pool_run digest st as) bs"
  by (induction as arbitrary: st) simp_all


text \<open>Further shapes of the same defect. A call for \<open>config_a\<close> that arrives while the
  pool for \<open>config_b\<close> is being set up is handed the promise of that initialization, that
  is the pool of another configuration. And the \<^verbatim>\<open>finally\<close> block of a failed
  initialization clears the variable while another initialization is still connecting,
  so that the next call starts one more.\<close>

lemma joins_other_configuration:
  "getPool plain_digest config_a replacing_state = (RPromise 1, replacing_state)
   \<and> task_at replacing_state 1 = Some (Closing config_b config_b 0)"
  by (simp add: replacing_state_eq getPool_def join_or_start_def is_connected_def task_at_def
        getConfigHash_def config_a_hash)

lemma initialization_forgotten:
  "poolInitializationPromise
     (pool_run plain_digest racing_state
        ([CloseSettles 1 True, CloseSettles 2 True] @ [ConnectSettles 2 False])) = None
   \<and> tasks
     (pool_run plain_digest racing_state
        ([CloseSettles 1 True, CloseSettles 2 True] @ [ConnectSettles 2 False]))
       = [Resolved 0, Connecting config_b 1, Rejected]
   \<and> fst (getPool plain_digest config_a
        (pool_run plain_digest racing_state
           ([CloseSettles 1 True, CloseSettles 2 True] @ [ConnectSettles 2 False])))
       = RPromise 3"
  by (simp only: pool_run_append racing_close_2)
     (simp add: pool_step_def connect_settles_def task_at_def getPool_def join_or_start_def
        start_initialization_def begin_initialization_def create_and_connect_def
        getConfigHash_def config_a_hash)

text \<open>What the settling of \<^verbatim>\<open>connect\<close> stores does not depend on what else has happened
  since the call: in every state in which the task awaits its \<^verbatim>\<open>connect\<close>, a success
  stores the task's pool and hash, and a failure leaves both variables as they are.\<close>

lemma connect_settles_any_state:
  assumes "task_at st t = Some (Connecting h n)"
  shows "poolInitializationPromise (pool_step digest st (ConnectSettles t connects)) = None
       \<and> (if connects
           then globalPool (pool_step digest st (ConnectSettles t connects)) = Some n
              \<and> currentConfigHash (pool_step digest st (ConnectSettles t connects)) = Some h
              \<and> task_at (pool_step digest st (ConnectSettles t connects)) t = Some (Resolved n)
           else globalPool (pool_step digest st (ConnectSettles t connects)) = globalPool st
              \<and> currentConfigHash (pool_step digest st (ConnectSettles t connects))
                  = currentConfigHash st
              \<and> task_at (pool_step digest st (ConnectSettles t connects)) t = Some Rejected)"
  using assms
  by (cases connects) (auto simp: pool_step_def connect_settles_def task_at_def split: if_splits)

section \<open>getPool\<close>

text \<open>
  C2. Of two concurrent calls to getPool at most one initialization runs at a time: a
  call that arrives during an initialization waits for that initialization and receives
  the same pool, whatever the two configurations. The code says the same of itself
  (\<^verbatim>\<open>If initialization is already in progress, wait for it\<close>; \<^verbatim>\<open>this prevents multiple
  simultaneous initializations\<close>) and misses it: the waiting branch compares the hash of
  the call with \<^verbatim>\<open>currentConfigHash\<close>, which is stored only when a \<^verbatim>\<open>connect\<close> has
  succeeded. Two first calls with one and the same configuration, the second before the
  first has connected, each create a pool and connect it, and hold different promises.
\<close>

theorem getPool_concurrent_first_calls:
  "tasks (pool_run plain_digest initial_state [CallGetPool config_a, CallGetPool config_a])
     = [Connecting config_a 0, Connecting config_a 1]
   \<and> in_flight (pool_run plain_digest initial_state [CallGetPool config_a, CallGetPool config_a])
     = 2
   \<and> returned (pool_run plain_digest initial_state [CallGetPool config_a, CallGetPool config_a])
     = [RPromise 0, RPromise 1]
   \<and> effects (pool_run plain_digest initial_state [CallGetPool config_a, CallGetPool config_a])
     = [Created 0, ConnectCalled 0, Created 1, ConnectCalled 1]"
  by (simp add: initial_state_def pool_defs config_a_hash in_flight_def running_def)

text \<open>The same with a pool stored: a call with a second configuration starts to replace
  it, and a call with a third configuration that arrives meanwhile starts an
  initialization of its own. Once both have closed the old pool, two new pools are
  connecting at once.\<close>

lemma getPool_second_initialization:
  "tasks (pool_run plain_digest initial_state
       [CallGetPool config_a, ConnectSettles 0 True, CallGetPool config_b, CallGetPool config_c,
        CloseSettles 1 True, CloseSettles 2 True])
     = [Resolved 0, Connecting config_b 1, Connecting config_c 2]
   \<and> in_flight (pool_run plain_digest initial_state
       [CallGetPool config_a, ConnectSettles 0 True, CallGetPool config_b, CallGetPool config_c,
        CloseSettles 1 True, CloseSettles 2 True]) = 2
   \<and> returned (pool_run plain_digest initial_state
       [CallGetPool config_a, ConnectSettles 0 True, CallGetPool config_b, CallGetPool config_c,
        CloseSettles 1 True, CloseSettles 2 True])
       = [RPromise 0, RPromise 1, RPromise 2]"
proof -
  have "pool_run plain_digest initial_state
          [CallGetPool config_a, ConnectSettles 0 True, CallGetPool config_b, CallGetPool config_c,
           CloseSettles 1 True, CloseSettles 2 True]
        = pool_run plain_digest racing_state [CloseSettles 1 True, CloseSettles 2 True]"
    by (simp add: racing_state_def replacing_state_def connected_state_def)
  then show ?thesis
    by (simp only: racing_close_2) (simp add: in_flight_def running_def)
qed




text \<open>
  C4. getPool with an unchanged configuration: if a pool is stored, it is connected and
  the stored hash is the hash of the configuration, the call returns the stored pool
  and changes nothing: no pool is closed or created, so every block that calls getPool
  with this configuration is handed the same pool.
\<close>

theorem getPool_unchanged_config:
  assumes "globalPool st = Some g" and "is_connected st g"
    and "currentConfigHash st = Some (getConfigHash digest appConfig)"
  shows "getPool digest appConfig st = (RPool g, st)"
  using assms by (simp add: getPool_def)

theorem getPool_unchanged_config_witness:
  "globalPool connected_state = Some 0 \<and> is_connected connected_state 0
   \<and> currentConfigHash connected_state = Some (getConfigHash plain_digest config_a)
   \<and> getPool plain_digest config_a connected_state = (RPool 0, connected_state)"
proof -
  have h1: "globalPool connected_state = Some 0"
    by (simp add: connected_state_eq)
  have h2: "is_connected connected_state 0"
    by (simp add: connected_state_eq is_connected_def)
  have h3: "currentConfigHash connected_state = Some (getConfigHash plain_digest config_a)"
    by (simp add: connected_state_eq getConfigHash_def config_a_hash)
  from getPool_unchanged_config [OF h1 h2 h3] h1 h2 h3 show ?thesis by simp
qed

section \<open>Batches of streamQuery\<close>

text \<open>
  C5. For a streamed result of n rows and a batch size b the block emits the batches in
  order, numbered from 0, each of b rows except possibly the last, and hasMore is false
  on the last emitted batch and true on the earlier ones. The block misses the last
  part when b divides n: a full batch is always emitted with \<^verbatim>\<open>hasMore: true\<close>, and the
  batch with \<^verbatim>\<open>hasMore: false\<close> is emitted only for rows left over at the end
  (\<open>stream_loop_batches\<close>: the events are the runs of b rows, numbered from 0, each flagged
  true exactly when it has b rows). With two rows and a batch size of two the only event
  says that more batches are expected.
\<close>

theorem streamQuery_full_last_batch:
  "emitted (streamQuery (Inr db_one_row) refuses_spaces ''SELECT id FROM t'' None (Some 2)
      [Drv (RowEv [(''id'', JNumber 1)]), Pull, Drv (RowEv [(''id'', JNumber 2)]), Pull,
       Drv DoneEv, Pull])
   = [BatchEvent 0 [[(''id'', JNumber 1)], [(''id'', JNumber 2)]] 2 True]"
  by (simp add: streamQuery_def stream_batches_def bind_parameters_def effective_batchSize_def
        gen_defs streamRows_def remaining_def Let_def serializeRow_def serializeValue_def)

end
